theory Spec2Isabelle
  imports Complex_Main "HOL-Library.Log_Nat"
begin

section \<open>The ticket purchase route of RobustTicketing\<close>

text \<open>
  This theory embeds the handler of \<^verbatim>\<open>POST /api/tickets/purchase\<close>
  (\<^verbatim>\<open>src/routes/tickets.js\<close>, lines 268-457) together with its helpers
  \<^verbatim>\<open>generateTicketCode\<close> and \<^verbatim>\<open>calculateOrderTotal\<close>.

  The relational store is a collaborator of the handler. It is modelled by the relations
  the handler's SQL statements read and write, with the columns those statements name:
  \<^verbatim>\<open>quantity\<close>, \<^verbatim>\<open>max_per_order\<close>, \<^verbatim>\<open>sale_start_date\<close>, \<^verbatim>\<open>sale_end_date\<close>
  and \<^verbatim>\<open>code\<close> are what the specification and the table declarations of
  \<^verbatim>\<open>config/database.js\<close> call \<^verbatim>\<open>quantity_total\<close>, \<^verbatim>\<open>max_purchase\<close>,
  \<^verbatim>\<open>sale_start\<close>, \<^verbatim>\<open>sale_end\<close> and \<^verbatim>\<open>ticket_code\<close>.
  The handler obtains its connection from a handle \<^verbatim>\<open>db\<close> that the module
  does not import; the connection is taken here as given. Timestamps are integers
  (milliseconds, as \<^verbatim>\<open>new Date(...)\<close> compares them), a price is the decimal that
  the store holds, quantities are integers, a nullable column is an \<open>option\<close>. What
  the handler computes from prices are JavaScript numbers. The request is taken as
  the handler receives it: the validation middleware checks of a ticket order only that
  its two fields are present, so any integer may arrive as a quantity.
\<close>

subsection \<open>Numbers\<close>

text \<open>
  A JavaScript number: a finite binary64 value, an infinity or \<^verbatim>\<open>NaN\<close>. The sign of
  zero is not kept; nothing below reads it.
\<close>

datatype number = Finite rat | PlusInfinity | MinusInfinity | NotANumber

definition pow2 :: "int \<Rightarrow> rat" where
  "pow2 k = (if 0 \<le> k then 2 ^ nat k else 1 / 2 ^ nat (- k))"

text \<open>The binary exponent of a rational other than 0: \<open>pow2 e \<le> \<bar>x\<bar> < pow2 (e + 1)\<close>.\<close>

definition exponent :: "rat \<Rightarrow> int" where
  "exponent x =
     (let y = \<bar>x\<bar>;
          e0 = (if 1 \<le> y then bitlen \<lfloor>y\<rfloor> - 1 else - bitlen \<lfloor>1 / y\<rfloor>)
      in if pow2 (e0 + 1) \<le> y then e0 + 1 else e0)"

definition round_half_even :: "rat \<Rightarrow> int" where
  "round_half_even y =
     (let f = \<lfloor>y\<rfloor>; d = y - of_int f
      in if d < 1 / 2 then f else if 1 / 2 < d then f + 1 else if even f then f else f + 1)"

text \<open>
  Rounding to binary64, to nearest with ties to even: 53 significant bits, the least
  exponent -1022 (below it the spacing stays at \<open>pow2 (- 1074)\<close>), and an infinity from
  \<open>pow2 1024\<close> on.
\<close>

definition binary64 :: "rat \<Rightarrow> number" where
  "binary64 x =
     (if x = 0 then Finite 0
      else
        let e = max (exponent x) (- 1022);
            ulp = pow2 (e - 52);
            m = round_half_even (x / ulp)
        in if 1024 \<le> e \<or> (e = 1023 \<and> \<bar>m\<bar> = 2 ^ 53)
           then (if 0 < x then PlusInfinity else MinusInfinity)
           else Finite (of_int m * ulp))"

text \<open>The operators \<^verbatim>\<open>*\<close> and \<^verbatim>\<open>+\<close> on numbers.\<close>

fun number_times :: "number \<Rightarrow> number \<Rightarrow> number" where
  "number_times NotANumber b = NotANumber"
| "number_times a NotANumber = NotANumber"
| "number_times (Finite x) (Finite y) = binary64 (x * y)"
| "number_times (Finite x) PlusInfinity =
     (if x = 0 then NotANumber else if 0 < x then PlusInfinity else MinusInfinity)"
| "number_times (Finite x) MinusInfinity =
     (if x = 0 then NotANumber else if 0 < x then MinusInfinity else PlusInfinity)"
| "number_times PlusInfinity (Finite y) =
     (if y = 0 then NotANumber else if 0 < y then PlusInfinity else MinusInfinity)"
| "number_times MinusInfinity (Finite y) =
     (if y = 0 then NotANumber else if 0 < y then MinusInfinity else PlusInfinity)"
| "number_times PlusInfinity PlusInfinity = PlusInfinity"
| "number_times MinusInfinity MinusInfinity = PlusInfinity"
| "number_times PlusInfinity MinusInfinity = MinusInfinity"
| "number_times MinusInfinity PlusInfinity = MinusInfinity"

fun number_plus :: "number \<Rightarrow> number \<Rightarrow> number" where
  "number_plus NotANumber b = NotANumber"
| "number_plus a NotANumber = NotANumber"
| "number_plus (Finite x) (Finite y) = binary64 (x + y)"
| "number_plus PlusInfinity MinusInfinity = NotANumber"
| "number_plus MinusInfinity PlusInfinity = NotANumber"
| "number_plus PlusInfinity b = PlusInfinity"
| "number_plus MinusInfinity b = MinusInfinity"
| "number_plus a PlusInfinity = PlusInfinity"
| "number_plus a MinusInfinity = MinusInfinity"

text \<open>
  The number for a decimal column that the driver hands over as text
  (\<^verbatim>\<open>ticketType.price\<close> in a product, \<^verbatim>\<open>parseFloat(ticketType.price)\<close>), and the
  number that a quantity is.
\<close>

definition price_number :: "rat \<Rightarrow> number" where
  "price_number p = binary64 p"

definition quantity_number :: "int \<Rightarrow> number" where
  "quantity_number q = binary64 (of_int q)"

subsection \<open>Relations\<close>

record event =
  ev_id :: string
  ev_status :: string
  ev_start_date :: int
  ev_deleted_at :: "int option"

record ticket_type =
  tt_id :: string
  tt_event_id :: string
  tt_name :: string
  tt_price :: rat
  tt_quantity :: int
  tt_max_per_order :: int
  tt_sale_start_date :: "int option"
  tt_sale_end_date :: "int option"
  tt_is_active :: bool
  tt_deleted_at :: "int option"

text \<open>
  A row of \<^verbatim>\<open>tickets\<close>. The columns up to \<open>t_customer_phone\<close> are those of the
  handler's \<^verbatim>\<open>INSERT INTO tickets\<close>. The column \<open>t_purchase_price\<close> is the
  \<^verbatim>\<open>purchase_price\<close> of the table declaration in \<^verbatim>\<open>config/database.js\<close>;
  a statement that does not list a column leaves it \<open>None\<close>.
\<close>

record ticket =
  t_id :: string
  t_code :: string
  t_order_id :: string
  t_ticket_type_id :: string
  t_status :: string
  t_customer_first_name :: string
  t_customer_last_name :: string
  t_customer_email :: string
  t_customer_phone :: "string option"
  t_purchase_price :: "rat option"

record order =
  o_id :: string
  o_user_id :: string
  o_event_id :: string
  o_total_amount :: number
  o_status :: string
  o_customer_first_name :: string
  o_customer_last_name :: string
  o_customer_email :: string
  o_customer_phone :: "string option"

record store =
  events :: "event list"
  ticket_types :: "ticket_type list"
  tickets :: "ticket list"
  orders :: "order list"

subsection \<open>Request, environment, response, errors\<close>

record ticket_order =
  ticketTypeId :: string
  quantity :: int

record customer_info =
  firstName :: string
  lastName :: string
  email :: string
  phone :: "string option"

record purchase_request =
  userId :: string
  eventId :: string
  ticketOrders :: "ticket_order list"
  customerInfo :: customer_info

text \<open>
  What one run of the handler takes from outside: the clock (\<^verbatim>\<open>new Date()\<close>), the
  successive results of \<^verbatim>\<open>uuidv4()\<close> and of \<^verbatim>\<open>Math.random()\<close>, numbered from 0
  in call order, whether the store accepts the \<^verbatim>\<open>COMMIT\<close>, and what the store makes
  of the number passed for the column \<^verbatim>\<open>total_amount\<close> of \<^verbatim>\<open>orders\<close>: the value
  it holds afterwards, or \<open>None\<close> when it refuses the number. The declared types of that
  column are \<^verbatim>\<open>DECIMAL(10, 2)\<close> and \<^verbatim>\<open>REAL\<close> (\<^verbatim>\<open>config/database.js\<close>).
\<close>

record env =
  now :: int
  uuidv4 :: "nat \<Rightarrow> string"
  random :: "nat \<Rightarrow> rat"
  commit_ok :: bool
  total_column :: "number \<Rightarrow> number option"

text \<open>
  Every \<^verbatim>\<open>throw new Error(...)\<close> of the handler, in source order, then the failures
  raised by the runtime and the store:
  \<^item> \<open>EventNotAvailable\<close>: "Event not found or not available for purchase";
  \<^item> \<open>EventAlreadyStarted\<close>: "Cannot purchase tickets for events that have already started";
  \<^item> \<open>TicketTypesNotFound\<close>: "One or more ticket types not found";
  \<^item> \<open>NotActive name\<close>: "Ticket type ... is not active";
  \<^item> \<open>NotYetOnSale name\<close>: "Sales for ... have not started yet";
  \<^item> \<open>SaleEnded name\<close>: "Sales for ... have ended";
  \<^item> \<open>LimitExceeded m name\<close>: "Maximum m tickets allowed per order for ...";
  \<^item> \<open>InsufficientInventory n name\<close>: "Only n tickets available for ...";
  \<^item> \<open>TypeError\<close>: a property read on \<^verbatim>\<open>undefined\<close>;
  \<^item> \<open>ConstraintViolation\<close>: the store rejects an \<^verbatim>\<open>INSERT\<close>;
  \<^item> \<open>CommitFailure\<close>: the store rejects the \<^verbatim>\<open>COMMIT\<close>.
\<close>

datatype error =
    EventNotAvailable
  | EventAlreadyStarted
  | TicketTypesNotFound
  | NotActive string
  | NotYetOnSale string
  | SaleEnded string
  | LimitExceeded int string
  | InsufficientInventory int string
  | TypeError
  | ConstraintViolation
  | CommitFailure

record created_ticket =
  ct_row :: ticket
  ct_type_name :: string
  ct_type_price :: number

record response_ticket =
  rt_id :: string
  rt_code :: string
  rt_type_name :: string
  rt_type_price :: number

record purchase_response =
  r_order_id :: string
  r_total_amount :: number
  r_status :: string
  r_ticket_count :: nat
  r_tickets :: "response_ticket list"

subsection \<open>Helper functions\<close>

definition chars :: string where
  "chars = ''ABCDEFGHIJKLMNOPQRSTUVWXYZ0123456789''"

text \<open>\<^verbatim>\<open>String.prototype.charAt\<close>: the empty string outside the string.\<close>

definition charAt :: "string \<Rightarrow> int \<Rightarrow> string" where
  "charAt s k = (if 0 \<le> k \<and> k < int (length s) then [s ! nat k] else [])"

text \<open>
  The loop of \<^verbatim>\<open>generateTicketCode\<close>: \<open>n\<close> iterations are left, \<open>pos\<close> is the number
  of the next \<^verbatim>\<open>Math.random()\<close> call.
\<close>

fun code_loop :: "(nat \<Rightarrow> rat) \<Rightarrow> nat \<Rightarrow> nat \<Rightarrow> string \<Rightarrow> string" where
  "code_loop rnd pos 0 result = result"
| "code_loop rnd pos (Suc n) result =
     code_loop rnd (Suc pos) n
       (result @ charAt chars \<lfloor>rnd pos * of_nat (length chars)\<rfloor>)"

definition generateTicketCode :: "(nat \<Rightarrow> rat) \<Rightarrow> nat \<Rightarrow> string" where
  "generateTicketCode rnd pos = code_loop rnd pos 10 []"


subsection \<open>Statements of the handler\<close>

text \<open>
  \<^verbatim>\<open>SELECT * FROM events WHERE id = $1 AND deleted_at IS NULL AND status = 'published'\<close>
\<close>

definition event_query :: "store \<Rightarrow> string \<Rightarrow> event list" where
  "event_query s eid =
     filter (\<lambda>e. ev_id e = eid \<and> ev_deleted_at e = None \<and> ev_status e = ''published'')
       (events s)"

text \<open>
  \<^verbatim>\<open>COUNT(t.id)\<close> over the join with
  \<^verbatim>\<open>tt.id = t.ticket_type_id AND t.status != 'cancelled'\<close>.
\<close>

definition sold_count :: "store \<Rightarrow> string \<Rightarrow> int" where
  "sold_count s tid =
     int (length (filter (\<lambda>t. t_ticket_type_id t = tid \<and> t_status t \<noteq> ''cancelled'')
       (tickets s)))"

text \<open>
  \<^verbatim>\<open>SELECT tt.*, COUNT(t.id) as sold_count ... WHERE tt.id = ANY($1) AND tt.event_id = $2
  AND tt.deleted_at IS NULL GROUP BY tt.id\<close>: one row per selected ticket type, with its count.
\<close>

definition ticket_types_query :: "store \<Rightarrow> string list \<Rightarrow> string \<Rightarrow> (ticket_type \<times> int) list" where
  "ticket_types_query s ids eid =
     map (\<lambda>tt. (tt, sold_count s (tt_id tt)))
       (filter (\<lambda>tt. tt_id tt \<in> set ids \<and> tt_event_id tt = eid \<and> tt_deleted_at tt = None)
         (ticket_types s))"

text \<open>
  The store's key constraints, as the table declarations of \<^verbatim>\<open>config/database.js\<close>
  have them: the primary key of \<^verbatim>\<open>orders\<close> and of \<^verbatim>\<open>tickets\<close>, and the uniqueness
  of the ticket code (\<^verbatim>\<open>ticket_code ... UNIQUE NOT NULL\<close>). A violating
  \<^verbatim>\<open>INSERT\<close> is rejected and changes nothing. The declarations' other constraints
  on a ticket row, which the handler's \<^verbatim>\<open>INSERT\<close> does not meet, are the predicates
  \<open>declared_status\<close> and \<open>declared_purchase_price\<close> below; the store of this model
  does not enforce them, since under them no purchase could store a ticket.
\<close>

definition insert_order :: "order \<Rightarrow> store \<Rightarrow> error + store" where
  "insert_order ord s =
     (if o_id ord \<in> set (map o_id (orders s)) then Inl ConstraintViolation
      else Inr (s\<lparr>orders := orders s @ [ord]\<rparr>))"

definition insert_ticket :: "ticket \<Rightarrow> store \<Rightarrow> error + store" where
  "insert_ticket t s =
     (if t_id t \<in> set (map t_id (tickets s)) \<or> t_code t \<in> set (map t_code (tickets s))
      then Inl ConstraintViolation
      else Inr (s\<lparr>tickets := tickets s @ [t]\<rparr>))"

text \<open>\<^verbatim>\<open>UPDATE orders SET status = $1 ... WHERE id = $2\<close>\<close>

definition update_order_status :: "string \<Rightarrow> string \<Rightarrow> store \<Rightarrow> store" where
  "update_order_status st oid s =
     s\<lparr>orders := map (\<lambda>ord. if o_id ord = oid then ord\<lparr>o_status := st\<rparr> else ord) (orders s)\<rparr>"

text \<open>\<^verbatim>\<open>customerInfo.phone || null\<close>: the empty string is falsy.\<close>

definition phone_or_null :: "customer_info \<Rightarrow> string option" where
  "phone_or_null c = (if phone c = Some [] then None else phone c)"

subsection \<open>Validation of the ticket orders\<close>

text \<open>\<^verbatim>\<open>ticketTypes.find(tt => tt.id === order.ticketTypeId)\<close>\<close>

definition find_type :: "(ticket_type \<times> int) list \<Rightarrow> string \<Rightarrow> (ticket_type \<times> int) option" where
  "find_type rows tid = find (\<lambda>r. tt_id (fst r) = tid) rows"

text \<open>
  The body of the validation loop (lines 320-348) for one order, after the lookup: the
  checks in source order. A date column that is \<^verbatim>\<open>null\<close> is falsy and skips its check.
\<close>

definition check_order :: "int \<Rightarrow> ticket_type \<Rightarrow> int \<Rightarrow> ticket_order \<Rightarrow> error option" where
  "check_order nw ticketType sold ord =
     (if \<not> tt_is_active ticketType then Some (NotActive (tt_name ticketType))
      else if (case tt_sale_start_date ticketType of None \<Rightarrow> False | Some d \<Rightarrow> d > nw)
        then Some (NotYetOnSale (tt_name ticketType))
      else if (case tt_sale_end_date ticketType of None \<Rightarrow> False | Some d \<Rightarrow> d < nw)
        then Some (SaleEnded (tt_name ticketType))
      else if quantity ord > tt_max_per_order ticketType
        then Some (LimitExceeded (tt_max_per_order ticketType) (tt_name ticketType))
      else (let availableCount = tt_quantity ticketType - sold in
        if quantity ord > availableCount
        then Some (InsufficientInventory availableCount (tt_name ticketType))
        else None))"

text \<open>\<^verbatim>\<open>ticketType.price * order.quantity\<close> (line 347).\<close>

definition line_amount :: "ticket_type \<Rightarrow> ticket_order \<Rightarrow> number" where
  "line_amount ticketType ord =
     number_times (price_number (tt_price ticketType)) (quantity_number (quantity ord))"

text \<open>
  The loop itself, threading \<^verbatim>\<open>ticketQuantities\<close> and \<^verbatim>\<open>totalAmount\<close>. A lookup
  that finds nothing makes \<^verbatim>\<open>ticketType.is_active\<close> a \<^verbatim>\<open>TypeError\<close>.
\<close>

fun validate_orders ::
  "int \<Rightarrow> (ticket_type \<times> int) list \<Rightarrow> ticket_order list \<Rightarrow> (string \<rightharpoonup> int) \<Rightarrow> number
    \<Rightarrow> error + ((string \<rightharpoonup> int) \<times> number)" where
  "validate_orders nw rows [] ticketQuantities totalAmount = Inr (ticketQuantities, totalAmount)"
| "validate_orders nw rows (ord # rest) ticketQuantities totalAmount =
     (case find_type rows (ticketTypeId ord) of
        None \<Rightarrow> Inl TypeError
      | Some (ticketType, sold) \<Rightarrow>
          (case check_order nw ticketType sold ord of
             Some e \<Rightarrow> Inl e
           | None \<Rightarrow>
               validate_orders nw rows rest
                 (ticketQuantities(tt_id ticketType \<mapsto> quantity ord))
                 (number_plus totalAmount (line_amount ticketType ord))))"

subsection \<open>Creation of the tickets\<close>

text \<open>
  The row of the \<^verbatim>\<open>INSERT INTO tickets\<close> (lines 384-403). The number of tickets
  created so far in this run fixes which \<^verbatim>\<open>uuidv4()\<close> result (the first one is the order
  id) and which ten \<^verbatim>\<open>Math.random()\<close> results the new ticket takes.
\<close>

definition new_ticket :: "env \<Rightarrow> purchase_request \<Rightarrow> string \<Rightarrow> ticket_order \<Rightarrow> nat \<Rightarrow> ticket" where
  "new_ticket e req orderId ord n =
     \<lparr>t_id = uuidv4 e (Suc n),
      t_code = generateTicketCode (random e) (10 * n),
      t_order_id = orderId,
      t_ticket_type_id = ticketTypeId ord,
      t_status = ''valid'',
      t_customer_first_name = firstName (customerInfo req),
      t_customer_last_name = lastName (customerInfo req),
      t_customer_email = email (customerInfo req),
      t_customer_phone = phone_or_null (customerInfo req),
      t_purchase_price = None\<rparr>"

text \<open>
  The inner loop (lines 380-413) with \<open>k\<close> iterations left. It returns the working store as
  it stands where the loop ends or throws. After the insert,
  \<^verbatim>\<open>ticketType.name\<close> is read; on \<^verbatim>\<open>undefined\<close> that throws.
\<close>

fun create_for_order ::
  "env \<Rightarrow> purchase_request \<Rightarrow> string \<Rightarrow> ticket_order \<Rightarrow> (ticket_type \<times> int) option \<Rightarrow> nat
    \<Rightarrow> created_ticket list \<Rightarrow> store \<Rightarrow> (error + created_ticket list) \<times> store" where
  "create_for_order e req orderId ord ticketType 0 createdTickets s = (Inr createdTickets, s)"
| "create_for_order e req orderId ord ticketType (Suc k) createdTickets s =
     (let t = new_ticket e req orderId ord (length createdTickets) in
      case insert_ticket t s of
        Inl err \<Rightarrow> (Inl err, s)
      | Inr s' \<Rightarrow>
          (case ticketType of
             None \<Rightarrow> (Inl TypeError, s')
           | Some (tt, sold) \<Rightarrow>
               create_for_order e req orderId ord ticketType k
                 (createdTickets @ [\<lparr>ct_row = t, ct_type_name = tt_name tt,
                                      ct_type_price = price_number (tt_price tt)\<rparr>])
                 s'))"

text \<open>The outer loop (lines 377-414); \<^verbatim>\<open>i < order.quantity\<close> runs \<open>nat (quantity ord)\<close> times.\<close>

fun create_tickets ::
  "env \<Rightarrow> purchase_request \<Rightarrow> string \<Rightarrow> (ticket_type \<times> int) list \<Rightarrow> ticket_order list
    \<Rightarrow> created_ticket list \<Rightarrow> store \<Rightarrow> (error + created_ticket list) \<times> store" where
  "create_tickets e req orderId rows [] createdTickets s = (Inr createdTickets, s)"
| "create_tickets e req orderId rows (ord # rest) createdTickets s =
     (case create_for_order e req orderId ord (find_type rows (ticketTypeId ord))
             (nat (quantity ord)) createdTickets s of
        (Inl err, s') \<Rightarrow> (Inl err, s')
      | (Inr created', s') \<Rightarrow> create_tickets e req orderId rows rest created' s')"

subsection \<open>The handler\<close>

text \<open>
  The row of the \<^verbatim>\<open>INSERT INTO orders\<close> (lines 352-371), with the total as the store
  holds it.
\<close>

definition new_order :: "env \<Rightarrow> purchase_request \<Rightarrow> number \<Rightarrow> order" where
  "new_order e req totalAmount =
     \<lparr>o_id = uuidv4 e 0,
      o_user_id = userId req,
      o_event_id = eventId req,
      o_total_amount = totalAmount,
      o_status = ''pending'',
      o_customer_first_name = firstName (customerInfo req),
      o_customer_last_name = lastName (customerInfo req),
      o_customer_email = email (customerInfo req),
      o_customer_phone = phone_or_null (customerInfo req)\<rparr>"

definition make_response :: "string \<Rightarrow> number \<Rightarrow> created_ticket list \<Rightarrow> purchase_response" where
  "make_response orderId totalAmount createdTickets =
     \<lparr>r_order_id = orderId,
      r_total_amount = totalAmount,
      r_status = ''completed'',
      r_ticket_count = length createdTickets,
      r_tickets = map (\<lambda>c. \<lparr>rt_id = t_id (ct_row c), rt_code = t_code (ct_row c),
                             rt_type_name = ct_type_name c, rt_type_price = ct_type_price c\<rparr>)
                    createdTickets\<rparr>"

text \<open>
  The statements between \<^verbatim>\<open>BEGIN\<close> and \<^verbatim>\<open>COMMIT\<close> (lines 279-420). The \<^verbatim>\<open>SELECT\<close>s
  are answered from \<open>rd\<close>, the state the transaction's reads see; the writes go to the
  working store \<open>wr\<close>, which is returned as it stands where the body ends or throws. A
  transaction that runs alone reads what it writes to: \<open>rd = wr\<close>. The
  \<^verbatim>\<open>INSERT INTO orders\<close> fails when the store refuses the total or the key.
\<close>

definition purchase_body ::
  "env \<Rightarrow> purchase_request \<Rightarrow> store \<Rightarrow> store \<Rightarrow> (error + purchase_response) \<times> store" where
  "purchase_body e req rd wr =
     (case event_query rd (eventId req) of
        [] \<Rightarrow> (Inl EventNotAvailable, wr)
      | ev # _ \<Rightarrow>
          if ev_start_date ev \<le> now e then (Inl EventAlreadyStarted, wr)
          else
            let ticketTypeIds = map ticketTypeId (ticketOrders req);
                rows = ticket_types_query rd ticketTypeIds (eventId req)
            in if length rows \<noteq> length ticketTypeIds then (Inl TicketTypesNotFound, wr)
               else
                 (case validate_orders (now e) rows (ticketOrders req) Map.empty (Finite 0) of
                    Inl err \<Rightarrow> (Inl err, wr)
                  | Inr (ticketQuantities, totalAmount) \<Rightarrow>
                      let orderId = uuidv4 e 0 in
                      (case total_column e totalAmount of
                         None \<Rightarrow> (Inl ConstraintViolation, wr)
                       | Some stored \<Rightarrow>
                           (case insert_order (new_order e req stored) wr of
                              Inl err \<Rightarrow> (Inl err, wr)
                            | Inr s1 \<Rightarrow>
                                (case create_tickets e req orderId rows (ticketOrders req) [] s1 of
                                   (Inl err, s2) \<Rightarrow> (Inl err, s2)
                                 | (Inr createdTickets, s2) \<Rightarrow>
                                     (Inr (make_response orderId totalAmount createdTickets),
                                      update_order_status ''completed'' orderId s2))))))"

text \<open>
  The handler run alone against the committed store \<open>s\<close>: \<^verbatim>\<open>BEGIN\<close>, the body,
  \<^verbatim>\<open>COMMIT\<close>; the \<^verbatim>\<open>catch\<close> block issues \<^verbatim>\<open>ROLLBACK\<close>, which discards the working
  store. The result is the response or the error, and the committed store afterwards.
\<close>

definition purchase ::
  "env \<Rightarrow> purchase_request \<Rightarrow> store \<Rightarrow> (error + purchase_response) \<times> store" where
  "purchase e req s =
     (case purchase_body e req s s of
        (Inl err, working) \<Rightarrow> (Inl err, s)
      | (Inr resp, working) \<Rightarrow>
          if commit_ok e then (Inr resp, working) else (Inl CommitFailure, s))"


text \<open>
  Two handlers in flight at once run on separate transactions, and each \<^verbatim>\<open>await\<close> is a
  point where the other may proceed. The handler's \<^verbatim>\<open>SELECT\<close>s take no lock
  (no \<^verbatim>\<open>FOR UPDATE\<close>, a plain \<^verbatim>\<open>BEGIN\<close>), so a handler may read the committed
  state \<open>rd\<close>, be overtaken by another handler's commit, and then write to the newer
  committed state \<open>s\<close>. The key constraints are checked against the state written to.
\<close>

definition purchase_reading ::
  "store \<Rightarrow> env \<Rightarrow> purchase_request \<Rightarrow> store \<Rightarrow> (error + purchase_response) \<times> store" where
  "purchase_reading rd e req s =
     (case purchase_body e req rd s of
        (Inl err, working) \<Rightarrow> (Inl err, s)
      | (Inr resp, working) \<Rightarrow>
          if commit_ok e then (Inr resp, working) else (Inl CommitFailure, s))"

text \<open>A sequence of purchase attempts, each finished before the next begins.\<close>

fun run_purchases :: "store \<Rightarrow> (env \<times> purchase_request) list \<Rightarrow> store" where
  "run_purchases s [] = s"
| "run_purchases s ((e, req) # rest) = run_purchases (snd (purchase e req s)) rest"

subsection \<open>Properties of the store and of a request\<close>

text \<open>The primary key of \<^verbatim>\<open>ticket_types\<close>.\<close>

definition ticket_type_keys :: "store \<Rightarrow> bool" where
  "ticket_type_keys s = distinct (map tt_id (ticket_types s))"

text \<open>No ticket type has more tickets that are not cancelled than its \<^verbatim>\<open>quantity\<close>.\<close>

definition capacity_respected :: "store \<Rightarrow> bool" where
  "capacity_respected s =
     (\<forall>tt \<in> set (ticket_types s). sold_count s (tt_id tt) \<le> tt_quantity tt)"

text \<open>The number of tickets the creation loops issue for a ticket type.\<close>

definition requested :: "ticket_order list \<Rightarrow> string \<Rightarrow> int" where
  "requested lines tid =
     sum_list (map (\<lambda>ord. if ticketTypeId ord = tid then int (nat (quantity ord)) else 0) lines)"


text \<open>The event checks of the handler pass (lines 283-298).\<close>

definition event_purchasable :: "env \<Rightarrow> purchase_request \<Rightarrow> store \<Rightarrow> bool" where
  "event_purchasable e req s =
     (case event_query s (eventId req) of [] \<Rightarrow> False | ev # _ \<Rightarrow> now e < ev_start_date ev)"

text \<open>The rows the handler validates against.\<close>

definition fetched_types :: "purchase_request \<Rightarrow> store \<Rightarrow> (ticket_type \<times> int) list" where
  "fetched_types req s =
     ticket_types_query s (map ticketTypeId (ticketOrders req)) (eventId req)"

text \<open>Every order in the list passes every check of the validation loop.\<close>

definition orders_pass :: "env \<Rightarrow> purchase_request \<Rightarrow> store \<Rightarrow> ticket_order list \<Rightarrow> bool" where
  "orders_pass e req s lines =
     (case validate_orders (now e) (fetched_types req s) lines Map.empty (Finite 0) of
        Inl err \<Rightarrow> False | Inr r \<Rightarrow> True)"

text \<open>
  The sale window of a ticket type is in order, as the route that creates ticket types
  demands (lines 200-208: "Sale end date must be after start date").
\<close>

definition window_ordered :: "ticket_type \<Rightarrow> bool" where
  "window_ordered tt =
     (case (tt_sale_start_date tt, tt_sale_end_date tt) of
        (Some a, Some b) \<Rightarrow> a < b
      | _ \<Rightarrow> True)"







text \<open>
  What a column declared \<^verbatim>\<open>DECIMAL(10, 2)\<close> makes of a number: the nearest hundredth
  (a tie away from zero), refused from \<open>10 ^ 8\<close> on and for an infinity.
\<close>

definition round_half_away :: "rat \<Rightarrow> int" where
  "round_half_away y = (if 0 \<le> y then \<lfloor>y + 1 / 2\<rfloor> else - \<lfloor>- y + 1 / 2\<rfloor>)"

definition decimal_10_2 :: "number \<Rightarrow> number option" where
  "decimal_10_2 n =
     (case n of
        Finite x \<Rightarrow>
          (let c = round_half_away (x * 100)
           in if \<bar>c\<bar> < 10 ^ 10 then Some (Finite (of_int c / 100)) else None)
      | NotANumber \<Rightarrow> Some NotANumber
      | PlusInfinity \<Rightarrow> None
      | MinusInfinity \<Rightarrow> None)"

text \<open>
  The constraints that the table declaration of \<^verbatim>\<open>tickets\<close> in
  \<^verbatim>\<open>config/database.js\<close> puts on the two columns (lines 274-275 and 484-485):
  \<^verbatim>\<open>status ... CHECK (status IN ('active', 'used', 'refunded', 'transferred'))\<close> and
  \<^verbatim>\<open>purchase_price ... NOT NULL\<close>.
\<close>

definition declared_status :: "string \<Rightarrow> bool" where
  "declared_status st = (st \<in> set [''active'', ''used'', ''refunded'', ''transferred''])"

definition declared_purchase_price :: "ticket \<Rightarrow> bool" where
  "declared_purchase_price t = (t_purchase_price t \<noteq> None)"

subsection \<open>Sample data\<close>

text \<open>
  The scenario of the specification: a published event that starts at time 1000, and a
  ticket type with capacity 1, price 20 and at most 5 tickets per order. The clock
  stands at 100.
\<close>

definition sample_event :: event where
  "sample_event =
     \<lparr>ev_id = ''e1'', ev_status = ''published'', ev_start_date = 1000, ev_deleted_at = None\<rparr>"

definition general :: ticket_type where
  "general =
     \<lparr>tt_id = ''g'', tt_event_id = ''e1'', tt_name = ''General'', tt_price = 20,
      tt_quantity = 1, tt_max_per_order = 5, tt_sale_start_date = None,
      tt_sale_end_date = None, tt_is_active = True, tt_deleted_at = None\<rparr>"

text \<open>A ticket type with room for ten, at most two per order.\<close>

definition balcony :: ticket_type where
  "balcony =
     \<lparr>tt_id = ''b'', tt_event_id = ''e1'', tt_name = ''Balcony'', tt_price = 35,
      tt_quantity = 10, tt_max_per_order = 2, tt_sale_start_date = None,
      tt_sale_end_date = None, tt_is_active = True, tt_deleted_at = None\<rparr>"

text \<open>A ticket type whose sale ended at time 50, and one that is switched off.\<close>

definition early_bird :: ticket_type where
  "early_bird =
     \<lparr>tt_id = ''y'', tt_event_id = ''e1'', tt_name = ''Early'', tt_price = 10,
      tt_quantity = 10, tt_max_per_order = 5, tt_sale_start_date = None,
      tt_sale_end_date = Some 50, tt_is_active = True, tt_deleted_at = None\<rparr>"

definition backstage :: ticket_type where
  "backstage =
     \<lparr>tt_id = ''k'', tt_event_id = ''e1'', tt_name = ''Backstage'', tt_price = 90,
      tt_quantity = 10, tt_max_per_order = 2, tt_sale_start_date = None,
      tt_sale_end_date = None, tt_is_active = False, tt_deleted_at = None\<rparr>"

definition sample_store :: store where
  "sample_store =
     \<lparr>events = [sample_event], ticket_types = [general, balcony, early_bird, backstage],
      tickets = [], orders = []\<rparr>"

definition buyer :: customer_info where
  "buyer = \<lparr>firstName = ''Ada'', lastName = ''Byron'', email = ''ada@x.org'', phone = None\<rparr>"

definition request_for :: "(string \<times> int) list \<Rightarrow> purchase_request" where
  "request_for lines =
     \<lparr>userId = ''u1'', eventId = ''e1'',
      ticketOrders = map (\<lambda>(tid, q). \<lparr>ticketTypeId = tid, quantity = q\<rparr>) lines,
      customerInfo = buyer\<rparr>"

text \<open>
  Two runs of the handler: their identifiers start with different letters, and the ticket
  with number \<open>n\<close> of a run gets ten times the letter number \<open>n + shift\<close> as its code.
  The total goes to a \<^verbatim>\<open>DECIMAL(10, 2)\<close> column.
\<close>

definition sample_env :: "char \<Rightarrow> nat \<Rightarrow> env" where
  "sample_env c shift =
     \<lparr>now = 100,
      uuidv4 = (\<lambda>n. c # replicate n CHR ''x''),
      random = (\<lambda>n. of_nat ((n div 10 + shift) mod 36) / 36),
      commit_ok = True,
      total_column = decimal_10_2\<rparr>"



text \<open>A ticket that is already stored, with the code of ten times the letter A.\<close>

definition stored_ticket :: ticket where
  "stored_ticket =
     \<lparr>t_id = ''t0'', t_code = ''AAAAAAAAAA'', t_order_id = ''o0'', t_ticket_type_id = ''b'',
      t_status = ''valid'', t_customer_first_name = ''Ada'', t_customer_last_name = ''Byron'',
      t_customer_email = ''ada@x.org'', t_customer_phone = None, t_purchase_price = None\<rparr>"


section \<open>Properties\<close>

subsection \<open>What the statements change\<close>

lemma find_SomeD: "find P xs = Some x \<Longrightarrow> x \<in> set xs \<and> P x"
  by (induction xs) (auto split: if_splits)

lemma keyed_row_unique:
  "distinct (map f xs) \<Longrightarrow> x \<in> set xs \<Longrightarrow> y \<in> set xs \<Longrightarrow> f x = f y \<Longrightarrow> x = y"
  by (meson distinct_map inj_onD)

lemma insert_ticket_frame:
  "insert_ticket t s = Inr s' \<Longrightarrow>
     events s' = events s \<and> ticket_types s' = ticket_types s \<and> orders s' = orders s \<and>
     tickets s' = tickets s @ [t]"
  by (auto simp: insert_ticket_def split: if_splits)

lemma insert_order_frame:
  "insert_order ord s = Inr s' \<Longrightarrow>
     events s' = events s \<and> ticket_types s' = ticket_types s \<and> tickets s' = tickets s \<and>
     orders s' = orders s @ [ord]"
  by (auto simp: insert_order_def split: if_splits)

lemma update_order_status_frame:
  "events (update_order_status st oid s) = events s"
  "ticket_types (update_order_status st oid s) = ticket_types s"
  "tickets (update_order_status st oid s) = tickets s"
  by (simp_all add: update_order_status_def)

lemma sold_count_cong: "tickets s' = tickets s \<Longrightarrow> sold_count s' tid = sold_count s tid"
  by (simp add: sold_count_def)

lemma new_ticket_fields:
  "t_ticket_type_id (new_ticket e req oid ord n) = ticketTypeId ord"
  "t_status (new_ticket e req oid ord n) = ''valid''"
  "t_purchase_price (new_ticket e req oid ord n) = None"
  "t_code (new_ticket e req oid ord n) = generateTicketCode (random e) (10 * n)"
  by (simp_all add: new_ticket_def)

subsection \<open>The creation loops\<close>

lemma create_for_order_frame:
  "create_for_order e req oid ord tto k created s = (res, s') \<Longrightarrow>
     events s' = events s \<and> ticket_types s' = ticket_types s \<and> orders s' = orders s"
proof (induction k arbitrary: created s)
  case 0
  then show ?case by simp
next
  case (Suc k)
  then show ?case
    by (auto simp: Let_def split: sum.splits option.splits prod.splits dest: insert_ticket_frame)
qed

lemma create_for_order_tickets:
  "create_for_order e req oid ord tto k created s = (Inr created', s') \<Longrightarrow>
     tickets s' = tickets s @ map (\<lambda>i. new_ticket e req oid ord (length created + i)) [0..<k] \<and>
     length created' = length created + k"
proof (induction k arbitrary: created s)
  case 0
  then show ?case by simp
next
  case (Suc k)
  from Suc.prems obtain s1 tt sold where
    ins: "insert_ticket (new_ticket e req oid ord (length created)) s = Inr s1" and
    tto: "tto = Some (tt, sold)" and
    rec: "create_for_order e req oid ord tto k
            (created @ [\<lparr>ct_row = new_ticket e req oid ord (length created),
                         ct_type_name = tt_name tt,
                         ct_type_price = price_number (tt_price tt)\<rparr>]) s1
          = (Inr created', s')"
    by (auto simp: Let_def split: sum.splits option.splits prod.splits)
  from Suc.IH[OF rec] insert_ticket_frame[OF ins]
  show ?case
    by (simp add: upt_conv_Cons map_Suc_upt[symmetric] o_def del: upt_Suc)
qed

lemma create_for_order_sold:
  assumes "create_for_order e req oid ord tto k created s = (Inr created', s')"
  shows "sold_count s' tid = sold_count s tid + (if ticketTypeId ord = tid then int k else 0)"
  using create_for_order_tickets[OF assms]
  by (simp add: sold_count_def filter_map o_def new_ticket_fields)

lemma create_tickets_frame:
  "create_tickets e req oid rows lines created s = (res, s') \<Longrightarrow>
     events s' = events s \<and> ticket_types s' = ticket_types s \<and> orders s' = orders s"
proof (induction lines arbitrary: created s)
  case Nil
  then show ?case by simp
next
  case (Cons ord rest)
  show ?case
  proof (cases "create_for_order e req oid ord (find_type rows (ticketTypeId ord))
                  (nat (quantity ord)) created s")
    case (Pair r1 s1)
    note fr = create_for_order_frame[OF Pair]
    show ?thesis
    proof (cases r1)
      case (Inl err)
      with Cons.prems Pair fr show ?thesis by simp
    next
      case (Inr c1)
      with Cons.prems Pair have "create_tickets e req oid rows rest c1 s1 = (res, s')" by simp
      from Cons.IH[OF this] fr show ?thesis by simp
    qed
  qed
qed

lemma create_tickets_step:
  assumes "create_tickets e req oid rows (ord # rest) created s = (Inr created', s')"
  obtains c1 s1 where
    "create_for_order e req oid ord (find_type rows (ticketTypeId ord))
       (nat (quantity ord)) created s = (Inr c1, s1)"
    "create_tickets e req oid rows rest c1 s1 = (Inr created', s')"
  using assms by (auto split: prod.splits sum.splits)

lemma create_tickets_sold:
  "create_tickets e req oid rows lines created s = (Inr created', s') \<Longrightarrow>
     sold_count s' tid = sold_count s tid + requested lines tid"
proof (induction lines arbitrary: created s)
  case Nil
  then show ?case by (simp add: requested_def)
next
  case (Cons ord rest)
  from Cons.prems obtain c1 s1 where
    step: "create_for_order e req oid ord (find_type rows (ticketTypeId ord))
             (nat (quantity ord)) created s = (Inr c1, s1)" and
    rec: "create_tickets e req oid rows rest c1 s1 = (Inr created', s')"
    by (rule create_tickets_step)
  from Cons.IH[OF rec] create_for_order_sold[OF step, of tid]
  show ?case by (simp add: requested_def)
qed

lemma create_tickets_count:
  "create_tickets e req oid rows lines created s = (Inr created', s') \<Longrightarrow>
     length (tickets s') = length (tickets s) + sum_list (map (\<lambda>ord. nat (quantity ord)) lines) \<and>
     length created' = length created + sum_list (map (\<lambda>ord. nat (quantity ord)) lines)"
proof (induction lines arbitrary: created s)
  case Nil
  then show ?case by simp
next
  case (Cons ord rest)
  from Cons.prems obtain c1 s1 where
    step: "create_for_order e req oid ord (find_type rows (ticketTypeId ord))
             (nat (quantity ord)) created s = (Inr c1, s1)" and
    rec: "create_tickets e req oid rows rest c1 s1 = (Inr created', s')"
    by (rule create_tickets_step)
  from Cons.IH[OF rec] create_for_order_tickets[OF step]
  show ?case by simp
qed

subsection \<open>The validation loop and the query\<close>

lemma validate_orders_checked:
  "validate_orders nw rows lines qs tot = Inr (qs', tot') \<Longrightarrow> ord \<in> set lines \<Longrightarrow>
     \<exists>tt sold. find_type rows (ticketTypeId ord) = Some (tt, sold) \<and>
               check_order nw tt sold ord = None"
proof (induction lines arbitrary: qs tot)
  case Nil
  then show ?case by simp
next
  case (Cons l rest)
  from Cons.prems(1) obtain tt sold where
    f: "find_type rows (ticketTypeId l) = Some (tt, sold)" and
    c: "check_order nw tt sold l = None" and
    rec: "validate_orders nw rows rest (qs(tt_id tt \<mapsto> quantity l))
            (number_plus tot (line_amount tt l)) = Inr (qs', tot')"
    by (auto split: option.splits prod.splits)
  show ?case
  proof (cases "ord = l")
    case True
    with f c show ?thesis by blast
  next
    case False
    with Cons.prems(2) have "ord \<in> set rest" by simp
    from Cons.IH[OF rec this] show ?thesis .
  qed
qed

lemma check_order_passed:
  "check_order nw tt sold ord = None \<Longrightarrow>
     tt_is_active tt \<and> quantity ord \<le> tt_max_per_order tt \<and> quantity ord \<le> tt_quantity tt - sold \<and>
     (\<forall>d. tt_sale_end_date tt = Some d \<longrightarrow> nw \<le> d)"
  by (simp add: check_order_def Let_def split: if_splits option.splits)

lemma find_type_query:
  assumes "find_type (ticket_types_query s ids eid) tid = Some (tt, sold)"
  shows "tt \<in> set (ticket_types s) \<and> tt_id tt = tid \<and> sold = sold_count s tid \<and>
         tid \<in> set ids \<and> tt_event_id tt = eid \<and> tt_deleted_at tt = None"
proof -
  from assms have "(tt, sold) \<in> set (ticket_types_query s ids eid) \<and> tt_id tt = tid"
    unfolding find_type_def by (auto dest: find_SomeD)
  then show ?thesis by (auto simp: ticket_types_query_def)
qed

lemma query_length_distinct:
  assumes pk: "distinct (map tt_id (ticket_types s))"
      and len: "length (ticket_types_query s ids eid) = length ids"
  shows "distinct ids"
proof -
  let ?F = "filter (\<lambda>tt. tt_id tt \<in> set ids \<and> tt_event_id tt = eid \<and> tt_deleted_at tt = None)
              (ticket_types s)"
  from pk have d: "distinct (map tt_id ?F)" by (rule distinct_map_filter)
  have sub: "set (map tt_id ?F) \<subseteq> set ids" by auto
  have "length ids = length (map tt_id ?F)" using len by (simp add: ticket_types_query_def)
  also have "\<dots> = card (set (map tt_id ?F))" using distinct_card[OF d] by simp
  also have "\<dots> \<le> card (set ids)" using sub by (intro card_mono) auto
  finally have "length ids \<le> card (set ids)" .
  with card_length[of ids] have "card (set ids) = length ids" by simp
  then show ?thesis by (rule card_distinct)
qed

lemma requested_absent:
  "tid \<notin> ticketTypeId ` set lines \<Longrightarrow> requested lines tid = 0"
  by (induction lines) (auto simp: requested_def)

lemma requested_distinct:
  "distinct (map ticketTypeId lines) \<Longrightarrow>
     requested lines tid =
       (case find (\<lambda>ord. ticketTypeId ord = tid) lines of
          None \<Rightarrow> 0 | Some ord \<Rightarrow> int (nat (quantity ord)))"
proof (induction lines)
  case Nil
  then show ?case by (simp add: requested_def)
next
  case (Cons l rest)
  show ?case
  proof (cases "ticketTypeId l = tid")
    case True
    with Cons.prems have "tid \<notin> ticketTypeId ` set rest" by auto
    then have "requested rest tid = 0" by (rule requested_absent)
    with True show ?thesis by (simp add: requested_def)
  next
    case False
    with Cons show ?thesis by (simp add: requested_def)
  qed
qed

subsection \<open>The handler, step by step\<close>

lemma purchase_failure_store: "purchase e req s = (Inl err, s') \<Longrightarrow> s' = s"
  by (auto simp: purchase_def split: prod.splits sum.splits if_splits)

lemma purchase_success:
  assumes "purchase e req s = (Inr resp, s')"
  shows "purchase_body e req s s = (Inr resp, s') \<and> commit_ok e"
  using assms by (auto simp: purchase_def split: prod.splits sum.splits if_splits)

lemma purchase_body_success:
  assumes "purchase_body e req rd wr = (Inr resp, s')"
  obtains ev evs qs total stored s1 created s2 where
    "event_query rd (eventId req) = ev # evs"
    "now e < ev_start_date ev"
    "length (fetched_types req rd) = length (ticketOrders req)"
    "validate_orders (now e) (fetched_types req rd) (ticketOrders req) Map.empty (Finite 0)
       = Inr (qs, total)"
    "total_column e total = Some stored"
    "insert_order (new_order e req stored) wr = Inr s1"
    "create_tickets e req (uuidv4 e 0) (fetched_types req rd) (ticketOrders req) [] s1
       = (Inr created, s2)"
    "resp = make_response (uuidv4 e 0) total created"
    "s' = update_order_status ''completed'' (uuidv4 e 0) s2"
proof -
  let ?rows = "fetched_types req rd"
  note defs = purchase_body_def Let_def fetched_types_def
  from assms obtain ev evs where ev: "event_query rd (eventId req) = ev # evs"
    by (cases "event_query rd (eventId req)") (simp_all add: defs)
  from assms ev have started: "now e < ev_start_date ev"
    by (cases "ev_start_date ev \<le> now e") (simp_all add: defs)
  from assms ev started have len: "length ?rows = length (ticketOrders req)"
    by (cases "length ?rows = length (ticketOrders req)") (simp_all add: defs)
  from assms ev started len obtain qs total where
    v: "validate_orders (now e) ?rows (ticketOrders req) Map.empty (Finite 0) = Inr (qs, total)"
    by (cases "validate_orders (now e) ?rows (ticketOrders req) Map.empty (Finite 0)")
       (auto simp: defs)
  from assms ev started len v obtain stored where
    tc: "total_column e total = Some stored"
    by (cases "total_column e total") (auto simp: defs)
  from assms ev started len v tc obtain s1 where
    io: "insert_order (new_order e req stored) wr = Inr s1"
    by (cases "insert_order (new_order e req stored) wr") (auto simp: defs)
  obtain r2 s2 where
    ct: "create_tickets e req (uuidv4 e 0) ?rows (ticketOrders req) [] s1 = (r2, s2)"
    by (cases "create_tickets e req (uuidv4 e 0) ?rows (ticketOrders req) [] s1")
  from assms ev started len v tc io ct obtain created where r2: "r2 = Inr created"
    by (cases r2) (auto simp: defs)
  from assms ev started len v tc io ct r2 have
    "resp = make_response (uuidv4 e 0) total created"
    "s' = update_order_status ''completed'' (uuidv4 e 0) s2"
    by (auto simp: defs)
  with that ev started len v tc io ct r2 show thesis by blast
qed

lemma purchase_body_sold:
  assumes "purchase_body e req rd wr = (Inr resp, s')"
  shows "ticket_types s' = ticket_types wr \<and>
         sold_count s' tid = sold_count wr tid + requested (ticketOrders req) tid"
proof -
  from assms obtain stored s1 created s2 where
    io: "insert_order (new_order e req stored) wr = Inr s1" and
    ct: "create_tickets e req (uuidv4 e 0) (fetched_types req rd) (ticketOrders req) [] s1
           = (Inr created, s2)" and
    s': "s' = update_order_status ''completed'' (uuidv4 e 0) s2"
    by (rule purchase_body_success) blast
  have "sold_count s' tid = sold_count s2 tid"
    unfolding s' by (rule sold_count_cong) (simp add: update_order_status_frame)
  also have "\<dots> = sold_count s1 tid + requested (ticketOrders req) tid"
    by (rule create_tickets_sold[OF ct])
  also have "sold_count s1 tid = sold_count wr tid"
    by (rule sold_count_cong) (simp add: insert_order_frame[OF io])
  finally have a: "sold_count s' tid = sold_count wr tid + requested (ticketOrders req) tid" .
  have "ticket_types s' = ticket_types s2"
    unfolding s' by (simp add: update_order_status_frame)
  also have "\<dots> = ticket_types s1" using create_tickets_frame[OF ct] by simp
  also have "\<dots> = ticket_types wr" using insert_order_frame[OF io] by simp
  finally show ?thesis using a by simp
qed

lemma purchase_body_admitted:
  assumes "purchase_body e req rd wr = (Inr resp, s')" and "ord \<in> set (ticketOrders req)"
  shows "\<exists>tt \<in> set (ticket_types rd). tt_id tt = ticketTypeId ord \<and>
           quantity ord \<le> tt_quantity tt - sold_count rd (tt_id tt) \<and>
           check_order (now e) tt (sold_count rd (tt_id tt)) ord = None"
proof -
  from assms(1) obtain qs total where
    v: "validate_orders (now e) (fetched_types req rd) (ticketOrders req) Map.empty (Finite 0)
          = Inr (qs, total)"
    by (rule purchase_body_success) blast
  from validate_orders_checked[OF v assms(2)] obtain tt sold where
    f: "find_type (fetched_types req rd) (ticketTypeId ord) = Some (tt, sold)" and
    c: "check_order (now e) tt sold ord = None" by blast
  from find_type_query[OF f[unfolded fetched_types_def]] check_order_passed[OF c] c
  show ?thesis by auto
qed

subsection \<open>Capacity\<close>

lemma purchase_preserves_capacity:
  assumes keys: "ticket_type_keys s" and cap: "capacity_respected s"
  shows "capacity_respected (snd (purchase e req s)) \<and> ticket_type_keys (snd (purchase e req s))"
proof (cases "purchase e req s")
  case (Pair res s')
  show ?thesis
  proof (cases res)
    case (Inl err)
    with Pair have "s' = s" by (auto dest: purchase_failure_store)
    with Pair keys cap show ?thesis by simp
  next
    case (Inr resp)
    with Pair have body: "purchase_body e req s s = (Inr resp, s')"
      by (auto dest: purchase_success)
    let ?lines = "ticketOrders req"
    from body have len: "length (ticket_types_query s (map ticketTypeId ?lines) (eventId req))
       = length (map ticketTypeId ?lines)"
      by (rule purchase_body_success) (simp add: fetched_types_def)
    from keys have d: "distinct (map ticketTypeId ?lines)"
      unfolding ticket_type_keys_def by (rule query_length_distinct[OF _ len])
    have tts: "ticket_types s' = ticket_types s" using purchase_body_sold[OF body] by simp
    have "sold_count s' (tt_id tt) \<le> tt_quantity tt" if tt: "tt \<in> set (ticket_types s)" for tt
    proof -
      have sc: "sold_count s' (tt_id tt) = sold_count s (tt_id tt) + requested ?lines (tt_id tt)"
        using purchase_body_sold[OF body] by simp
      from cap tt have base: "sold_count s (tt_id tt) \<le> tt_quantity tt"
        by (simp add: capacity_respected_def)
      show ?thesis
      proof (cases "find (\<lambda>ord. ticketTypeId ord = tt_id tt) ?lines")
        case None
        with requested_distinct[OF d, of "tt_id tt"] sc base show ?thesis by simp
      next
        case (Some ord)
        then have mem: "ord \<in> set ?lines" and oid: "ticketTypeId ord = tt_id tt"
          by (auto dest: find_SomeD)
        from purchase_body_admitted[OF body mem] obtain tt' where
          tt': "tt' \<in> set (ticket_types s)" "tt_id tt' = ticketTypeId ord"
               "quantity ord \<le> tt_quantity tt' - sold_count s (tt_id tt')" by blast
        from keys have "distinct (map tt_id (ticket_types s))"
          by (simp add: ticket_type_keys_def)
        from keyed_row_unique[OF this tt'(1) tt] tt'(2) oid have "tt' = tt" by simp
        with tt' have "quantity ord \<le> tt_quantity tt - sold_count s (tt_id tt)" by simp
        with requested_distinct[OF d, of "tt_id tt"] Some sc base show ?thesis by simp
      qed
    qed
    with tts Pair keys show ?thesis
      by (simp add: capacity_respected_def ticket_type_keys_def)
  qed
qed

lemma run_purchases_capacity:
  "ticket_type_keys s \<Longrightarrow> capacity_respected s \<Longrightarrow>
     capacity_respected (run_purchases s attempts) \<and> ticket_type_keys (run_purchases s attempts)"
proof (induction attempts arbitrary: s)
  case Nil
  then show ?case by simp
next
  case (Cons a rest)
  obtain e req where a: "a = (e, req)" by (cases a)
  from purchase_preserves_capacity[OF Cons.prems, of e req]
  have "capacity_respected (snd (purchase e req s))" "ticket_type_keys (snd (purchase e req s))"
    by simp_all
  from Cons.IH[OF this(2) this(1)] a show ?case by simp
qed

text \<open>
  Claim C2. In every state reached from a store that respects its capacities by purchase
  attempts run one after another, every ticket type has at most \<^verbatim>\<open>quantity\<close> tickets
  that are not cancelled. A further purchase keeps it so, and it succeeds only when each
  requested quantity is at most the ticket type's quantity minus its current sold count.
\<close>

theorem purchases_respect_capacity:
  assumes "ticket_type_keys s" and "capacity_respected s"
  shows "capacity_respected (run_purchases s attempts) \<and>
         (purchase e req (run_purchases s attempts) = (Inr resp, s') \<longrightarrow>
            capacity_respected s' \<and>
            (\<forall>ord \<in> set (ticketOrders req).
               \<exists>tt \<in> set (ticket_types (run_purchases s attempts)).
                 tt_id tt = ticketTypeId ord \<and>
                 quantity ord
                   \<le> tt_quantity tt - sold_count (run_purchases s attempts) (tt_id tt)))"
proof -
  let ?st = "run_purchases s attempts"
  from run_purchases_capacity[OF assms, of attempts]
  have cap: "capacity_respected ?st" and keys: "ticket_type_keys ?st" by simp_all
  have "capacity_respected s' \<and>
        (\<forall>ord \<in> set (ticketOrders req). \<exists>tt \<in> set (ticket_types ?st).
            tt_id tt = ticketTypeId ord \<and>
            quantity ord \<le> tt_quantity tt - sold_count ?st (tt_id tt))"
    if p: "purchase e req ?st = (Inr resp, s')"
  proof -
    from purchase_preserves_capacity[OF keys cap, of e req] p
    have "capacity_respected s'" by simp
    moreover from p have "purchase_body e req ?st ?st = (Inr resp, s')"
      by (simp add: purchase_success)
    then have "\<exists>tt \<in> set (ticket_types ?st). tt_id tt = ticketTypeId ord \<and>
        quantity ord \<le> tt_quantity tt - sold_count ?st (tt_id tt)"
      if "ord \<in> set (ticketOrders req)" for ord
      using purchase_body_admitted[OF _ that] by blast
    ultimately show ?thesis by blast
  qed
  with cap show ?thesis by blast
qed

theorem purchases_respect_capacity_witness:
  "ticket_type_keys sample_store \<and> capacity_respected sample_store \<and>
   capacity_respected
     (run_purchases sample_store [(sample_env CHR ''a'' 0, request_for [(''b'', 2)])]) \<and>
   (\<exists>resp s'.
      purchase (sample_env CHR ''c'' 2) (request_for [(''g'', 1), (''b'', 2)])
        (run_purchases sample_store [(sample_env CHR ''a'' 0, request_for [(''b'', 2)])])
        = (Inr resp, s') \<and>
      capacity_respected s' \<and> sold_count s' ''b'' = 4 \<and> sold_count s' ''g'' = 1)"
proof -
  let ?st = "run_purchases sample_store [(sample_env CHR ''a'' 0, request_for [(''b'', 2)])]"
  let ?p = "purchase (sample_env CHR ''c'' 2) (request_for [(''g'', 1), (''b'', 2)]) ?st"
  have k: "ticket_type_keys sample_store" by code_simp
  have c: "capacity_respected sample_store" by code_simp
  have "\<not> isl (fst ?p)" by code_simp
  then obtain resp where r: "fst ?p = Inr resp" by (cases "fst ?p") simp_all
  then have p: "?p = (Inr resp, snd ?p)" by (metis prod.collapse)
  have n: "sold_count (snd ?p) ''b'' = 4 \<and> sold_count (snd ?p) ''g'' = 1" by code_simp
  from purchases_respect_capacity[OF k c, of "[(sample_env CHR ''a'' 0, request_for [(''b'', 2)])]"
      "sample_env CHR ''c'' 2" "request_for [(''g'', 1), (''b'', 2)]" resp "snd ?p"] p
  have "capacity_respected ?st \<and> capacity_respected (snd ?p)" by blast
  with k c p n show ?thesis by blast
qed


subsection \<open>Atomicity\<close>

lemma update_new_order:
  assumes "oid \<notin> set (map o_id os)" and "o_id ord = oid"
  shows "map (\<lambda>x. if o_id x = oid then x\<lparr>o_status := st\<rparr> else x) (os @ [ord])
           = os @ [ord\<lparr>o_status := st\<rparr>]"
proof -
  from assms(1) have "map (\<lambda>x. if o_id x = oid then x\<lparr>o_status := st\<rparr> else x) os = os"
    by (induction os) auto
  with assms(2) show ?thesis by simp
qed

lemma purchase_body_rows:
  assumes "purchase_body e req rd wr = (Inr resp, s')"
  shows "(\<exists>stored. total_column e (r_total_amount resp) = Some stored \<and>
            orders s' = orders wr @ [(new_order e req stored)\<lparr>o_status := ''completed''\<rparr>])
         \<and> uuidv4 e 0 \<notin> set (map o_id (orders wr))
         \<and> r_order_id resp = uuidv4 e 0
         \<and> length (tickets s') = length (tickets wr) + r_ticket_count resp
         \<and> r_ticket_count resp = sum_list (map (\<lambda>ord. nat (quantity ord)) (ticketOrders req))"
proof -
  from assms obtain total stored s1 created s2 where
    tc: "total_column e total = Some stored" and
    io: "insert_order (new_order e req stored) wr = Inr s1" and
    ct: "create_tickets e req (uuidv4 e 0) (fetched_types req rd) (ticketOrders req) [] s1
           = (Inr created, s2)" and
    resp: "resp = make_response (uuidv4 e 0) total created" and
    s': "s' = update_order_status ''completed'' (uuidv4 e 0) s2"
    by (rule purchase_body_success) blast
  from io have fresh: "uuidv4 e 0 \<notin> set (map o_id (orders wr))"
    by (auto simp: insert_order_def new_order_def split: if_splits)
  have os2: "orders s2 = orders wr @ [new_order e req stored]"
    using create_tickets_frame[OF ct] insert_order_frame[OF io] by simp
  have oid: "o_id (new_order e req stored) = uuidv4 e 0" by (simp add: new_order_def)
  have "orders s' = orders wr @ [(new_order e req stored)\<lparr>o_status := ''completed''\<rparr>]"
    unfolding s' update_order_status_def using update_new_order[OF fresh oid] os2 by simp
  with tc resp have "\<exists>stored. total_column e (r_total_amount resp) = Some stored \<and>
      orders s' = orders wr @ [(new_order e req stored)\<lparr>o_status := ''completed''\<rparr>]"
    by (simp add: make_response_def)
  moreover have "length (tickets s') = length (tickets wr) + length created"
    using create_tickets_count[OF ct] insert_order_frame[OF io]
    by (simp add: s' update_order_status_frame)
  moreover have "length created = sum_list (map (\<lambda>ord. nat (quantity ord)) (ticketOrders req))"
    using create_tickets_count[OF ct] by simp
  ultimately show ?thesis using fresh resp by (simp add: make_response_def)
qed

text \<open>
  Claim C3. A purchase attempt that fails leaves the committed store as it was: whenever a
  statement between \<^verbatim>\<open>BEGIN\<close> and \<^verbatim>\<open>COMMIT\<close> throws, or the \<^verbatim>\<open>COMMIT\<close> is
  rejected, the caller gets an error and the store is unchanged, whatever the working
  store held by then. A purchase that answers with a response has stored its one order,
  marked completed, and every ticket asked for.
\<close>

theorem failed_purchase_leaves_store_unchanged:
  "(purchase e req s = (Inl err, s') \<longrightarrow> s' = s) \<and>
   (isl (fst (purchase_body e req s s)) \<or> \<not> commit_ok e \<longrightarrow>
      isl (fst (purchase e req s)) \<and> snd (purchase e req s) = s) \<and>
   (purchase e req s = (Inr resp, s') \<longrightarrow>
      (\<exists>stored. total_column e (r_total_amount resp) = Some stored \<and>
         orders s' = orders s @ [(new_order e req stored)\<lparr>o_status := ''completed''\<rparr>]) \<and>
      length (tickets s') = length (tickets s) + r_ticket_count resp \<and>
      r_ticket_count resp = sum_list (map (\<lambda>ord. nat (quantity ord)) (ticketOrders req)))"
proof (intro conjI impI)
  assume "purchase e req s = (Inl err, s')"
  then show "s' = s" by (rule purchase_failure_store)
next
  assume a: "isl (fst (purchase_body e req s s)) \<or> \<not> commit_ok e"
  obtain r w where b: "purchase_body e req s s = (r, w)" by (cases "purchase_body e req s s")
  show "isl (fst (purchase e req s))"
    using a b by (cases r) (auto simp: purchase_def)
  show "snd (purchase e req s) = s"
    using a b by (cases r) (auto simp: purchase_def)
next
  assume p: "purchase e req s = (Inr resp, s')"
  then have b: "purchase_body e req s s = (Inr resp, s')" by (simp add: purchase_success)
  from purchase_body_rows[OF b]
  show "\<exists>stored. total_column e (r_total_amount resp) = Some stored \<and>
         orders s' = orders s @ [(new_order e req stored)\<lparr>o_status := ''completed''\<rparr>]"
    and "length (tickets s') = length (tickets s) + r_ticket_count resp"
    and "r_ticket_count resp = sum_list (map (\<lambda>ord. nat (quantity ord)) (ticketOrders req))"
    by simp_all
qed

theorem failed_purchase_leaves_store_unchanged_witness:
  "fst (purchase (sample_env CHR ''a'' 35) (request_for [(''b'', 2)])
          (sample_store\<lparr>tickets := [stored_ticket]\<rparr>)) = Inl ConstraintViolation \<and>
   snd (purchase (sample_env CHR ''a'' 35) (request_for [(''b'', 2)])
          (sample_store\<lparr>tickets := [stored_ticket]\<rparr>)) = sample_store\<lparr>tickets := [stored_ticket]\<rparr> \<and>
   length (orders (snd (purchase_body (sample_env CHR ''a'' 35) (request_for [(''b'', 2)])
          (sample_store\<lparr>tickets := [stored_ticket]\<rparr>) (sample_store\<lparr>tickets := [stored_ticket]\<rparr>)))) = 1 \<and>
   length (tickets (snd (purchase_body (sample_env CHR ''a'' 35) (request_for [(''b'', 2)])
          (sample_store\<lparr>tickets := [stored_ticket]\<rparr>) (sample_store\<lparr>tickets := [stored_ticket]\<rparr>)))) = 2 \<and>
   (\<exists>resp s'. purchase (sample_env CHR ''a'' 3) (request_for [(''b'', 2)])
          (sample_store\<lparr>tickets := [stored_ticket]\<rparr>) = (Inr resp, s') \<and>
      length (orders s') = 1 \<and> length (tickets s') = 3) \<and>
   purchase ((sample_env CHR ''a'' 3)\<lparr>commit_ok := False\<rparr>) (request_for [(''b'', 2)])
          (sample_store\<lparr>tickets := [stored_ticket]\<rparr>)
     = (Inl CommitFailure, sample_store\<lparr>tickets := [stored_ticket]\<rparr>)"
proof -
  let ?st = "sample_store\<lparr>tickets := [stored_ticket]\<rparr>"
  let ?p = "purchase (sample_env CHR ''a'' 35) (request_for [(''b'', 2)]) ?st"
  let ?b = "purchase_body (sample_env CHR ''a'' 35) (request_for [(''b'', 2)]) ?st ?st"
  let ?q = "purchase (sample_env CHR ''a'' 3) (request_for [(''b'', 2)]) ?st"
  have f: "fst ?p = Inl ConstraintViolation" by code_simp
  then have "?p = (Inl ConstraintViolation, snd ?p)" by (metis prod.collapse)
  with failed_purchase_leaves_store_unchanged
         [of "sample_env CHR ''a'' 35" "request_for [(''b'', 2)]" ?st ConstraintViolation "snd ?p"]
  have u: "snd ?p = ?st" by blast
  have d: "length (orders (snd ?b)) = 1 \<and> length (tickets (snd ?b)) = 2" by code_simp
  have "\<not> isl (fst ?q)" by code_simp
  then obtain resp where "fst ?q = Inr resp" by (cases "fst ?q") simp_all
  then have q: "?q = (Inr resp, snd ?q)" by (metis prod.collapse)
  have n: "length (orders (snd ?q)) = 1 \<and> length (tickets (snd ?q)) = 3" by code_simp
  let ?c = "purchase ((sample_env CHR ''a'' 3)\<lparr>commit_ok := False\<rparr>) (request_for [(''b'', 2)]) ?st"
  have "\<not> commit_ok ((sample_env CHR ''a'' 3)\<lparr>commit_ok := False\<rparr>)" by simp
  with failed_purchase_leaves_store_unchanged
         [of "(sample_env CHR ''a'' 3)\<lparr>commit_ok := False\<rparr>" "request_for [(''b'', 2)]" ?st]
  have "isl (fst ?c)" and c2: "snd ?c = ?st" by blast+
  moreover have "fst ?c = Inl CommitFailure" by code_simp
  ultimately have "?c = (Inl CommitFailure, ?st)" by (metis prod.collapse)
  with f u d q n show ?thesis by blast
qed

subsection \<open>Repeated ticket types\<close>





subsection \<open>The total\<close>




lemma query_ids:
  assumes pk: "distinct (map tt_id (ticket_types s))"
      and len: "length (ticket_types_query s ids eid) = length ids"
  shows "distinct (map (\<lambda>r. tt_id (fst r)) (ticket_types_query s ids eid)) \<and>
         set (map (\<lambda>r. tt_id (fst r)) (ticket_types_query s ids eid)) = set ids"
proof -
  let ?rows = "ticket_types_query s ids eid"
  let ?rids = "map (\<lambda>r. tt_id (fst r)) ?rows"
  let ?F = "filter (\<lambda>tt. tt_id tt \<in> set ids \<and> tt_event_id tt = eid \<and> tt_deleted_at tt = None)
              (ticket_types s)"
  have eq: "?rids = map tt_id ?F" by (simp add: ticket_types_query_def o_def)
  from pk have d: "distinct ?rids" unfolding eq by (rule distinct_map_filter)
  have sub: "set ?rids \<subseteq> set ids" unfolding eq by auto
  from query_length_distinct[OF pk len] have "card (set ids) = length ids"
    by (rule distinct_card)
  moreover have "card (set ?rids) = length ?rids" using d by (rule distinct_card)
  ultimately have "card (set ?rids) = card (set ids)" using len by simp
  with sub have "set ?rids = set ids" by (intro card_subset_eq) auto
  with d show ?thesis by simp
qed





subsection \<open>Two attempts in flight\<close>

text \<open>
  Claim C1. The specification demands that of \<open>M > N\<close> concurrent attempts to buy one unit
  of a ticket type with capacity \<open>N\<close> exactly \<open>N\<close> succeed, and that the handler does not
  rely on an unlocked gap between its inventory read and its inserts. The handler's read
  takes no lock. With capacity 1 and two attempts that both read before either writes,
  both succeed and the ticket type ends with two tickets. Run one after the other, the
  second attempt is rejected with zero tickets left.
\<close>

theorem interleaved_attempts_oversell:
  "tt_quantity general = 1 \<and>
   sold_count sample_store ''g'' = 0 \<and>
   \<not> isl (fst (purchase_reading sample_store (sample_env CHR ''a'' 0) (request_for [(''g'', 1)])
                  sample_store)) \<and>
   \<not> isl (fst (purchase_reading sample_store (sample_env CHR ''c'' 1) (request_for [(''g'', 1)])
                  (snd (purchase_reading sample_store (sample_env CHR ''a'' 0)
                          (request_for [(''g'', 1)]) sample_store)))) \<and>
   sold_count
     (snd (purchase_reading sample_store (sample_env CHR ''c'' 1) (request_for [(''g'', 1)])
             (snd (purchase_reading sample_store (sample_env CHR ''a'' 0)
                     (request_for [(''g'', 1)]) sample_store)))) ''g'' = 2 \<and>
   fst (purchase (sample_env CHR ''c'' 1) (request_for [(''g'', 1)])
          (snd (purchase (sample_env CHR ''a'' 0) (request_for [(''g'', 1)]) sample_store)))
     = Inl (InsufficientInventory 0 ''General'')"
  by code_simp

subsection \<open>The stored ticket row\<close>

lemma create_tickets_rows:
  "create_tickets e req oid rows lines created s = (Inr created', s') \<Longrightarrow>
     \<exists>new. tickets s' = tickets s @ new \<and>
           length created' = length created + length new \<and>
           list_all (\<lambda>t. t_status t = ''valid'' \<and> t_purchase_price t = None) new"
proof (induction lines arbitrary: created s)
  case Nil
  then show ?case by simp
next
  case (Cons ord rest)
  from Cons.prems obtain c1 s1 where
    step: "create_for_order e req oid ord (find_type rows (ticketTypeId ord))
             (nat (quantity ord)) created s = (Inr c1, s1)" and
    rec: "create_tickets e req oid rows rest c1 s1 = (Inr created', s')"
    by (rule create_tickets_step)
  let ?first = "map (\<lambda>i. new_ticket e req oid ord (length created + i)) [0..<nat (quantity ord)]"
  from create_for_order_tickets[OF step] have
    t1: "tickets s1 = tickets s @ ?first" and
    l1: "length c1 = length created + nat (quantity ord)" by simp_all
  from Cons.IH[OF rec] obtain new' where
    t2: "tickets s' = tickets s1 @ new'" and
    l2: "length created' = length c1 + length new'" and
    a2: "list_all (\<lambda>t. t_status t = ''valid'' \<and> t_purchase_price t = None) new'" by blast
  have a1: "list_all (\<lambda>t. t_status t = ''valid'' \<and> t_purchase_price t = None) ?first"
    by (simp add: list_all_iff new_ticket_fields)
  from t1 t2 have "tickets s' = tickets s @ (?first @ new')" by simp
  moreover from l1 l2 have "length created' = length created + length (?first @ new')" by simp
  moreover from a1 a2
  have "list_all (\<lambda>t. t_status t = ''valid'' \<and> t_purchase_price t = None) (?first @ new')"
    by simp
  ultimately show ?case by blast
qed

lemma purchase_rows:
  assumes "purchase e req s = (Inr resp, s')"
  shows "\<exists>new. tickets s' = tickets s @ new \<and> length new = r_ticket_count resp \<and>
           list_all (\<lambda>t. t_status t = ''valid'' \<and> t_purchase_price t = None) new"
proof -
  from assms have "purchase_body e req s s = (Inr resp, s')" by (simp add: purchase_success)
  then obtain tot stored s1 created s2 where
    io: "insert_order (new_order e req stored) s = Inr s1" and
    ct: "create_tickets e req (uuidv4 e 0) (fetched_types req s) (ticketOrders req) [] s1
           = (Inr created, s2)" and
    resp: "resp = make_response (uuidv4 e 0) tot created" and
    s': "s' = update_order_status ''completed'' (uuidv4 e 0) s2"
    by (rule purchase_body_success) blast
  from create_tickets_rows[OF ct] obtain new where
    "tickets s2 = tickets s1 @ new" "length created = length new"
    "list_all (\<lambda>t. t_status t = ''valid'' \<and> t_purchase_price t = None) new" by auto
  with insert_order_frame[OF io] s' resp show ?thesis
    by (auto simp: update_order_status_frame make_response_def)
qed

text \<open>
  Claim C4. The specification says that every ticket row of a successful purchase has
  \<^verbatim>\<open>purchase_price\<close> equal to the price of its ticket type. The handler's
  \<^verbatim>\<open>INSERT INTO tickets\<close> does not list that column: every row that a successful
  purchase adds has no purchase price, against the table declaration's
  \<^verbatim>\<open>NOT NULL\<close>. Only the response carries the price.
\<close>

theorem stored_tickets_have_no_purchase_price:
  assumes "purchase e req s = (Inr resp, s')"
  shows "\<exists>new. tickets s' = tickets s @ new \<and> length new = r_ticket_count resp \<and>
           list_all (\<lambda>t. t_purchase_price t = None \<and> \<not> declared_purchase_price t) new"
proof -
  from purchase_rows[OF assms] obtain new where
    n: "tickets s' = tickets s @ new" "length new = r_ticket_count resp"
       "list_all (\<lambda>t. t_status t = ''valid'' \<and> t_purchase_price t = None) new" by blast
  from n(3) have "list_all (\<lambda>t. t_purchase_price t = None \<and> \<not> declared_purchase_price t) new"
    by (simp add: list_all_iff declared_purchase_price_def)
  with n show ?thesis by blast
qed

theorem stored_tickets_have_no_purchase_price_witness:
  "(case purchase (sample_env CHR ''a'' 0) (request_for [(''b'', 2)]) sample_store of
      (Inl err, s') \<Rightarrow> False
    | (Inr resp, s') \<Rightarrow>
        map t_purchase_price (tickets s') = [None, None] \<and>
        list_all (\<lambda>t. \<not> declared_purchase_price t) (tickets s') \<and>
        map rt_type_price (r_tickets resp) = [Finite 35, Finite 35])"
proof -
  let ?p = "purchase (sample_env CHR ''a'' 0) (request_for [(''b'', 2)]) sample_store"
  have "\<not> isl (fst ?p)" by code_simp
  then obtain resp where r: "fst ?p = Inr resp" by (cases "fst ?p") simp_all
  then have p: "?p = (Inr resp, snd ?p)" by (metis prod.collapse)
  have t0: "tickets sample_store = []" by (simp add: sample_store_def)
  have c: "r_ticket_count (projr (fst ?p)) = 2" by code_simp
  have pr: "map rt_type_price (r_tickets (projr (fst ?p))) = [Finite 35, Finite 35]" by code_simp
  from stored_tickets_have_no_purchase_price[OF p] t0 obtain new where
    n: "tickets (snd ?p) = new" "length new = r_ticket_count resp"
       "list_all (\<lambda>t. t_purchase_price t = None \<and> \<not> declared_purchase_price t) new" by auto
  from n(2) c r have "length new = 2" by simp
  then obtain a b where ab: "new = [a, b]"
    by (metis (no_types) Suc_length_conv length_0_conv numeral_2_eq_2)
  with n(3) have "map t_purchase_price new = [None, None]"
    "list_all (\<lambda>t. \<not> declared_purchase_price t) new" by simp_all
  with n(1) pr r p show ?thesis by (simp add: case_prod_beta)
qed

text \<open>
  Claim C5. The specification says that every ticket row is created with status
  "active". The handler's \<^verbatim>\<open>INSERT INTO tickets\<close> writes the literal
  \<^verbatim>\<open>'valid'\<close>, which is not among the statuses of the table declaration: every row
  that a successful purchase adds has it.
\<close>

theorem tickets_are_created_valid:
  assumes "purchase e req s = (Inr resp, s')"
  shows "\<exists>new. tickets s' = tickets s @ new \<and> length new = r_ticket_count resp \<and>
           list_all (\<lambda>t. t_status t = ''valid'' \<and> \<not> declared_status (t_status t)) new"
proof -
  have nv: "\<not> declared_status ''valid''" by (simp add: declared_status_def)
  from purchase_rows[OF assms] obtain new where
    n: "tickets s' = tickets s @ new" "length new = r_ticket_count resp"
       "list_all (\<lambda>t. t_status t = ''valid'' \<and> t_purchase_price t = None) new" by blast
  from n(3) nv have "list_all (\<lambda>t. t_status t = ''valid'' \<and> \<not> declared_status (t_status t)) new"
    by (simp add: list_all_iff)
  with n show ?thesis by blast
qed

theorem tickets_are_created_valid_witness:
  "\<not> isl (fst (purchase (sample_env CHR ''a'' 0) (request_for [(''b'', 2)]) sample_store)) \<and>
   map t_status
     (tickets (snd (purchase (sample_env CHR ''a'' 0) (request_for [(''b'', 2)]) sample_store)))
     = [''valid'', ''valid''] \<and>
   \<not> declared_status ''valid'' \<and> declared_status ''active''"
proof -
  let ?p = "purchase (sample_env CHR ''a'' 0) (request_for [(''b'', 2)]) sample_store"
  have i: "\<not> isl (fst ?p)" by code_simp
  then obtain resp where r: "fst ?p = Inr resp" by (cases "fst ?p") simp_all
  then have p: "?p = (Inr resp, snd ?p)" by (metis prod.collapse)
  have t0: "tickets sample_store = []" by (simp add: sample_store_def)
  have c: "r_ticket_count (projr (fst ?p)) = 2" by code_simp
  from tickets_are_created_valid[OF p] t0 obtain new where
    n: "tickets (snd ?p) = new" "length new = r_ticket_count resp"
       "list_all (\<lambda>t. t_status t = ''valid'' \<and> \<not> declared_status (t_status t)) new" by auto
  from n(2) c r have "length new = 2" by simp
  then obtain a b where ab: "new = [a, b]"
    by (metis (no_types) Suc_length_conv length_0_conv numeral_2_eq_2)
  with n(3) have "map t_status new = [''valid'', ''valid'']" by simp
  moreover have "\<not> declared_status ''valid'' \<and> declared_status ''active''" by code_simp
  ultimately show ?thesis using i n(1) by simp
qed

subsection \<open>Ticket codes\<close>

















subsection \<open>The order of the checks\<close>

lemma validate_orders_append:
  "validate_orders nw rows (pre @ rest) qs tot =
     (case validate_orders nw rows pre qs tot of
        Inl err \<Rightarrow> Inl err
      | Inr (qs', tot') \<Rightarrow> validate_orders nw rows rest qs' tot')"
  by (induction pre arbitrary: qs tot) (auto split: option.splits prod.splits)

lemma validate_orders_error_same:
  "(validate_orders nw rows lines qs tot = Inl err)
     = (validate_orders nw rows lines qs' tot' = Inl err)"
proof (induction lines arbitrary: qs tot qs' tot')
  case Nil
  then show ?case by simp
next
  case (Cons l rest)
  show ?case
  proof (cases "find_type rows (ticketTypeId l)")
    case None
    then show ?thesis by simp
  next
    case (Some row)
    obtain tt sold where row: "row = (tt, sold)" by (cases row)
    show ?thesis
    proof (cases "check_order nw tt sold l")
      case None
      with Some row Cons.IH show ?thesis by simp
    next
      case (Some a)
      with \<open>find_type rows (ticketTypeId l) = Some row\<close> row show ?thesis by simp
    qed
  qed
qed

lemma purchase_validation_error:
  assumes "event_purchasable e req s"
      and "length (fetched_types req s) = length (ticketOrders req)"
      and "validate_orders (now e) (fetched_types req s) (ticketOrders req) Map.empty (Finite 0) = Inl err"
  shows "purchase e req s = (Inl err, s)"
proof -
  from assms(1) obtain ev evs where
    "event_query s (eventId req) = ev # evs" "now e < ev_start_date ev"
    by (auto simp: event_purchasable_def split: list.splits)
  with assms(2,3) show ?thesis
    by (simp add: purchase_def purchase_body_def Let_def fetched_types_def)
qed

lemma fetched_row:
  assumes keys: "ticket_type_keys s"
      and len: "length (fetched_types req s) = length (ticketOrders req)"
      and ord: "ord \<in> set (ticketOrders req)"
      and tt: "tt \<in> set (ticket_types s)" "tt_id tt = ticketTypeId ord"
  shows "find_type (fetched_types req s) (ticketTypeId ord) = Some (tt, sold_count s (tt_id tt))"
proof -
  let ?ids = "map ticketTypeId (ticketOrders req)"
  from keys have pk: "distinct (map tt_id (ticket_types s))" by (simp add: ticket_type_keys_def)
  from len have len': "length (ticket_types_query s ?ids (eventId req)) = length ?ids"
    by (simp add: fetched_types_def)
  from query_ids[OF pk len'] ord have
    "ticketTypeId ord \<in> set (map (\<lambda>r. tt_id (fst r)) (fetched_types req s))"
    by (simp add: fetched_types_def)
  then have "find_type (fetched_types req s) (ticketTypeId ord) \<noteq> None"
    by (auto simp: find_type_def find_None_iff)
  then obtain tt' sold where
    f: "find_type (fetched_types req s) (ticketTypeId ord) = Some (tt', sold)" by auto
  from find_type_query[OF f[unfolded fetched_types_def]] have
    a: "tt' \<in> set (ticket_types s)" "tt_id tt' = ticketTypeId ord"
       "sold = sold_count s (ticketTypeId ord)" by simp_all
  from keyed_row_unique[OF pk a(1) tt(1)] a(2) tt(2) have "tt' = tt" by simp
  with f a tt show ?thesis by simp
qed

text \<open>
  Claim C8, as the handler has it. A purchase that names a ticket type whose sale end is
  set and lies in the past is rejected, whatever the requested quantity and the remaining
  inventory. The rejection is "Sales for ... have ended" when the event checks pass, every
  requested id has its row, the ticket type is active and every order before the one
  naming it passes its checks: the handler reports the first check that fails, order by
  order, and the sale window comes before the limit and the inventory.
\<close>

theorem ended_sale_rejects_purchase:
  assumes "ticket_type_keys s"
      and "tt \<in> set (ticket_types s)" and "window_ordered tt"
      and "tt_sale_end_date tt = Some d" and "d < now e"
      and "ticketOrders req = pre @ ord # post" and "ticketTypeId ord = tt_id tt"
  shows "(\<exists>err. purchase e req s = (Inl err, s)) \<and>
         (event_purchasable e req s \<and>
          length (fetched_types req s) = length (ticketOrders req) \<and>
          tt_is_active tt \<and> orders_pass e req s pre
            \<longrightarrow> purchase e req s = (Inl (SaleEnded (tt_name tt)), s))"
proof -
  from assms(1) have pk: "distinct (map tt_id (ticket_types s))"
    by (simp add: ticket_type_keys_def)
  from assms(6) have mem: "ord \<in> set (ticketOrders req)" by simp
  obtain r w where b: "purchase_body e req s s = (r, w)" by (cases "purchase_body e req s s")
  have "\<exists>err. r = Inl err"
  proof (cases r)
    case (Inl err)
    then show ?thesis by simp
  next
    case (Inr resp)
    with b have "purchase_body e req s s = (Inr resp, w)" by simp
    from purchase_body_admitted[OF this mem] obtain tt' where
      t: "tt' \<in> set (ticket_types s)" "tt_id tt' = ticketTypeId ord"
         "check_order (now e) tt' (sold_count s (tt_id tt')) ord = None" by blast
    from keyed_row_unique[OF pk t(1) assms(2)] t(2) assms(7) have "tt' = tt" by simp
    with check_order_passed[OF t(3)] assms(4,5) show ?thesis by auto
  qed
  then obtain err where "r = Inl err" ..
  with b have first: "purchase e req s = (Inl err, s)" by (simp add: purchase_def)
  have "purchase e req s = (Inl (SaleEnded (tt_name tt)), s)"
    if ev: "event_purchasable e req s"
      and len: "length (fetched_types req s) = length (ticketOrders req)"
      and act: "tt_is_active tt" and pre: "orders_pass e req s pre"
  proof -
    let ?rows = "fetched_types req s"
    from assms(7) have id: "tt_id tt = ticketTypeId ord" by simp
    from fetched_row[OF assms(1) len mem assms(2) id]
    have f: "find_type ?rows (ticketTypeId ord) = Some (tt, sold_count s (tt_id tt))" .
    from assms(3,4,5) have start:
      "\<not> (case tt_sale_start_date tt of None \<Rightarrow> False | Some a \<Rightarrow> now e < a)"
      by (auto simp: window_ordered_def split: option.splits)
    from act start assms(4,5)
    have c: "check_order (now e) tt (sold_count s (tt_id tt)) ord = Some (SaleEnded (tt_name tt))"
      by (auto simp: check_order_def split: option.splits)
    from pre obtain qs tot where
      p: "validate_orders (now e) ?rows pre Map.empty (Finite 0) = Inr (qs, tot)"
      by (auto simp: orders_pass_def split: sum.splits)
    have "validate_orders (now e) ?rows (ticketOrders req) Map.empty (Finite 0)
            = Inl (SaleEnded (tt_name tt))"
      unfolding assms(6) validate_orders_append using p f c by simp
    from purchase_validation_error[OF ev len this] show ?thesis .
  qed
  with first show ?thesis by blast
qed

theorem ended_sale_rejects_purchase_witness:
  "ticket_type_keys sample_store \<and> early_bird \<in> set (ticket_types sample_store) \<and>
   window_ordered early_bird \<and> tt_sale_end_date early_bird = Some 50 \<and>
   50 < now (sample_env CHR ''a'' 0) \<and>
   event_purchasable (sample_env CHR ''a'' 0) (request_for [(''b'', 1), (''y'', 30)]) sample_store \<and>
   tt_is_active early_bird \<and>
   orders_pass (sample_env CHR ''a'' 0) (request_for [(''b'', 1), (''y'', 30)]) sample_store
     [\<lparr>ticketTypeId = ''b'', quantity = 1\<rparr>] \<and>
   purchase (sample_env CHR ''a'' 0) (request_for [(''b'', 1), (''y'', 30)]) sample_store
     = (Inl (SaleEnded ''Early''), sample_store)"
proof -
  let ?e = "sample_env CHR ''a'' 0"
  let ?req = "request_for [(''b'', 1), (''y'', 30)]"
  have k: "ticket_type_keys sample_store" by code_simp
  have m: "early_bird \<in> set (ticket_types sample_store)" by (simp add: sample_store_def)
  have w: "window_ordered early_bird" by code_simp
  have d: "tt_sale_end_date early_bird = Some 50" by (simp add: early_bird_def)
  have n: "50 < now ?e" by (simp add: sample_env_def)
  have l: "ticketOrders ?req
             = [\<lparr>ticketTypeId = ''b'', quantity = 1\<rparr>] @ \<lparr>ticketTypeId = ''y'', quantity = 30\<rparr> # []"
    by (simp add: request_for_def)
  have i: "ticketTypeId \<lparr>ticketTypeId = ''y'', quantity = 30\<rparr> = tt_id early_bird"
    by (simp add: early_bird_def)
  have ev: "event_purchasable ?e ?req sample_store" by code_simp
  have len: "length (fetched_types ?req sample_store) = length (ticketOrders ?req)" by code_simp
  have act: "tt_is_active early_bird" by (simp add: early_bird_def)
  have pre: "orders_pass ?e ?req sample_store [\<lparr>ticketTypeId = ''b'', quantity = 1\<rparr>]"
    by code_simp
  have nm: "tt_name early_bird = ''Early''" by (simp add: early_bird_def)
  from ended_sale_rejects_purchase[OF k m w d n l i] ev len act pre nm
  have "purchase ?e ?req sample_store = (Inl (SaleEnded ''Early''), sample_store)" by simp
  with k m w d n ev act pre show ?thesis by blast
qed

text \<open>
  Against claim C8 as the specification states it: the event is purchasable and the
  ticket type \<open>y\<close> is active with its sale ended, yet a purchase that names it after an
  order for a switched-off ticket type returns "is not active", and one that names it
  beside an unknown id returns "One or more ticket types not found".
\<close>

theorem ended_sale_reported_as_other_error:
  "tt_is_active early_bird \<and> tt_sale_end_date early_bird = Some 50 \<and>
   50 < now (sample_env CHR ''a'' 0) \<and>
   event_purchasable (sample_env CHR ''a'' 0) (request_for [(''k'', 1), (''y'', 1)]) sample_store \<and>
   fst (purchase (sample_env CHR ''a'' 0) (request_for [(''k'', 1), (''y'', 1)]) sample_store)
     = Inl (NotActive ''Backstage'') \<and>
   event_purchasable (sample_env CHR ''a'' 0) (request_for [(''y'', 1), (''zz'', 1)]) sample_store \<and>
   fst (purchase (sample_env CHR ''a'' 0) (request_for [(''y'', 1), (''zz'', 1)]) sample_store)
     = Inl TicketTypesNotFound"
  by code_simp

lemma create_for_order_error:
  "tto \<noteq> None \<Longrightarrow> create_for_order e req oid ord tto k created s = (Inl err, s') \<Longrightarrow>
     err = ConstraintViolation"
proof (induction k arbitrary: created s)
  case 0
  then show ?case by simp
next
  case (Suc k)
  from Suc.prems(1) obtain tt sold where tto: "tto = Some (tt, sold)" by auto
  show ?case
  proof (cases "insert_ticket (new_ticket e req oid ord (length created)) s")
    case (Inl x)
    then have "x = ConstraintViolation" by (simp add: insert_ticket_def split: if_splits)
    with Suc.prems(2) Inl show ?thesis by (simp add: Let_def)
  next
    case (Inr s1)
    with Suc.prems(2) tto Suc.IH[OF Suc.prems(1)] show ?thesis by (simp add: Let_def)
  qed
qed

lemma create_tickets_error:
  "\<forall>ord \<in> set lines. find_type rows (ticketTypeId ord) \<noteq> None \<Longrightarrow>
     create_tickets e req oid rows lines created s = (Inl err, s') \<Longrightarrow>
       err = ConstraintViolation"
proof (induction lines arbitrary: created s)
  case Nil
  then show ?case by simp
next
  case (Cons ord rest)
  from Cons.prems(1) have f: "find_type rows (ticketTypeId ord) \<noteq> None"
    and r: "\<forall>ord \<in> set rest. find_type rows (ticketTypeId ord) \<noteq> None" by simp_all
  show ?case
  proof (cases "create_for_order e req oid ord (find_type rows (ticketTypeId ord))
                  (nat (quantity ord)) created s")
    case (Pair r1 s1)
    show ?thesis
    proof (cases r1)
      case (Inl x)
      with Pair create_for_order_error[OF f] have "x = ConstraintViolation" by blast
      with Cons.prems(2) Pair Inl show ?thesis by simp
    next
      case (Inr c1)
      with Cons.prems(2) Pair have "create_tickets e req oid rows rest c1 s1 = (Inl err, s')"
        by simp
      from Cons.IH[OF r this] show ?thesis .
    qed
  qed
qed

lemma purchase_after_validation:
  assumes ev: "event_purchasable e req s"
      and len: "length (fetched_types req s) = length (ticketOrders req)"
      and v: "validate_orders (now e) (fetched_types req s) (ticketOrders req) Map.empty (Finite 0)
                = Inr (qs, tot)"
  shows "(\<exists>resp s'. purchase e req s = (Inr resp, s')) \<or>
         purchase e req s = (Inl ConstraintViolation, s) \<or>
         purchase e req s = (Inl CommitFailure, s)"
proof -
  let ?rows = "fetched_types req s"
  from ev obtain ev0 evs where
    q: "event_query s (eventId req) = ev0 # evs" "now e < ev_start_date ev0"
    by (auto simp: event_purchasable_def split: list.splits)
  note defs = purchase_def purchase_body_def Let_def
  from len have len': "length (ticket_types_query s (map ticketTypeId (ticketOrders req)) (eventId req))
                         = length (ticketOrders req)" by (simp add: fetched_types_def)
  note v' = v[unfolded fetched_types_def]
  show ?thesis
  proof (cases "total_column e tot")
    case None
    with q len' v' show ?thesis by (simp add: defs)
  next
    case (Some stored)
    note tc = Some
    show ?thesis
  proof (cases "insert_order (new_order e req stored) s")
    case (Inl x)
    then have "x = ConstraintViolation" by (simp add: insert_order_def split: if_splits)
    with Inl tc q len' v' show ?thesis by (simp add: defs)
  next
    case (Inr s1)
    obtain r2 s2 where
      ct: "create_tickets e req (uuidv4 e 0) ?rows (ticketOrders req) [] s1 = (r2, s2)"
      by (cases "create_tickets e req (uuidv4 e 0) ?rows (ticketOrders req) [] s1")
    note ct' = ct[unfolded fetched_types_def]
    show ?thesis
    proof (cases r2)
      case (Inl x)
      have "\<forall>ord \<in> set (ticketOrders req). find_type ?rows (ticketTypeId ord) \<noteq> None"
        using validate_orders_checked[OF v] by fastforce
      from create_tickets_error[OF this] ct Inl have "x = ConstraintViolation" by blast
      with Inl Inr tc ct' q len' v' show ?thesis by (simp add: defs)
    next
      case (Inr created)
      with \<open>insert_order (new_order e req stored) s = Inr s1\<close> tc ct' q len' v'
      show ?thesis by (cases "commit_ok e") (simp_all add: defs)
    qed
  qed
  qed
qed

text \<open>
  Claim C9, as the handler has it. For an order that reaches the limit check (the event
  checks pass, every requested id has its row, the orders before it pass, its ticket type
  is active and inside its sale window), the validation fails at that order with "Maximum
  ... tickets allowed per order" exactly when the requested quantity exceeds
  \<^verbatim>\<open>max_per_order\<close>, and then so does the purchase. A request of exactly
  \<^verbatim>\<open>max_per_order\<close> that the remaining inventory covers, in a purchase whose later
  orders pass too, succeeds unless the store rejects an insert or the commit.
\<close>

theorem per_order_limit_boundary:
  assumes "event_purchasable e req s"
      and "length (fetched_types req s) = length (ticketOrders req)"
      and "ticketOrders req = pre @ ord # post" and "orders_pass e req s pre"
      and "find_type (fetched_types req s) (ticketTypeId ord) = Some (tt, sold)"
      and "tt_is_active tt"
      and "case tt_sale_start_date tt of None \<Rightarrow> True | Some d \<Rightarrow> d \<le> now e"
      and "case tt_sale_end_date tt of None \<Rightarrow> True | Some d \<Rightarrow> now e \<le> d"
  shows "(validate_orders (now e) (fetched_types req s) (pre @ [ord]) Map.empty (Finite 0)
            = Inl (LimitExceeded (tt_max_per_order tt) (tt_name tt)))
           = (tt_max_per_order tt < quantity ord) \<and>
         (tt_max_per_order tt < quantity ord \<longrightarrow>
            purchase e req s = (Inl (LimitExceeded (tt_max_per_order tt) (tt_name tt)), s)) \<and>
         (quantity ord = tt_max_per_order tt \<and> quantity ord \<le> tt_quantity tt - sold \<and>
          orders_pass e req s post \<longrightarrow>
            (\<exists>resp s'. purchase e req s = (Inr resp, s')) \<or>
            purchase e req s = (Inl ConstraintViolation, s) \<or>
            purchase e req s = (Inl CommitFailure, s))"
proof -
  let ?rows = "fetched_types req s"
  let ?lim = "LimitExceeded (tt_max_per_order tt) (tt_name tt)"
  from assms(4) obtain qs tot where
    p: "validate_orders (now e) ?rows pre Map.empty (Finite 0) = Inr (qs, tot)"
    by (auto simp: orders_pass_def split: sum.splits)
  have over: "check_order (now e) tt sold ord = Some ?lim" if "tt_max_per_order tt < quantity ord"
    using that assms(6,7,8) by (auto simp: check_order_def split: option.splits)
  have under: "check_order (now e) tt sold ord \<noteq> Some ?lim" if "\<not> tt_max_per_order tt < quantity ord"
    using that assms(6,7,8) by (auto simp: check_order_def Let_def split: option.splits)
  have one: "(validate_orders (now e) ?rows (pre @ [ord]) Map.empty (Finite 0) = Inl ?lim)
               = (tt_max_per_order tt < quantity ord)"
  proof (cases "tt_max_per_order tt < quantity ord")
    case True
    with over p assms(5) show ?thesis by (simp add: validate_orders_append)
  next
    case False
    with under p assms(5) show ?thesis
      by (auto simp: validate_orders_append split: option.splits)
  qed
  have two: "purchase e req s = (Inl ?lim, s)" if "tt_max_per_order tt < quantity ord"
  proof -
    have "validate_orders (now e) ?rows (ticketOrders req) Map.empty (Finite 0) = Inl ?lim"
      unfolding assms(3) validate_orders_append using p assms(5) over[OF that] by simp
    from purchase_validation_error[OF assms(1,2) this] show ?thesis .
  qed
  have three: "(\<exists>resp s'. purchase e req s = (Inr resp, s')) \<or>
               purchase e req s = (Inl ConstraintViolation, s) \<or>
               purchase e req s = (Inl CommitFailure, s)"
    if q: "quantity ord = tt_max_per_order tt" "quantity ord \<le> tt_quantity tt - sold"
      and post: "orders_pass e req s post"
  proof -
    from q assms(6,7,8) have c: "check_order (now e) tt sold ord = None"
      by (auto simp: check_order_def Let_def split: option.splits)
    let ?qs1 = "qs(tt_id tt \<mapsto> quantity ord)"
    let ?tot1 = "number_plus tot (line_amount tt ord)"
    have "\<exists>r. validate_orders (now e) ?rows post ?qs1 ?tot1 = Inr r"
    proof (cases "validate_orders (now e) ?rows post ?qs1 ?tot1")
      case (Inl err)
      with validate_orders_error_same[of "now e" ?rows post ?qs1 ?tot1 err Map.empty "Finite 0"]
      have "validate_orders (now e) ?rows post Map.empty (Finite 0) = Inl err" by simp
      with post show ?thesis by (simp add: orders_pass_def)
    next
      case (Inr r)
      then show ?thesis by blast
    qed
    then obtain qs2 tot2 where
      "validate_orders (now e) ?rows post ?qs1 ?tot1 = Inr (qs2, tot2)" by force
    with p assms(5) c have
      "validate_orders (now e) ?rows (ticketOrders req) Map.empty (Finite 0) = Inr (qs2, tot2)"
      unfolding assms(3) validate_orders_append by simp
    from purchase_after_validation[OF assms(1,2) this] show ?thesis .
  qed
  from one two three show ?thesis by blast
qed

theorem per_order_limit_boundary_witness:
  "tt_max_per_order balcony = 2 \<and>
   purchase (sample_env CHR ''a'' 0) (request_for [(''g'', 1), (''b'', 3)]) sample_store
     = (Inl (LimitExceeded 2 ''Balcony''), sample_store) \<and>
   (\<exists>resp s'. purchase (sample_env CHR ''a'' 0) (request_for [(''g'', 1), (''b'', 2)]) sample_store
                 = (Inr resp, s'))"
proof -
  let ?e = "sample_env CHR ''a'' 0"
  let ?r3 = "request_for [(''g'', 1), (''b'', 3)]"
  let ?r2 = "request_for [(''g'', 1), (''b'', 2)]"
  let ?pre = "[\<lparr>ticketTypeId = ''g'', quantity = 1\<rparr>]"
  have act: "tt_is_active balcony" by (simp add: balcony_def)
  have st: "case tt_sale_start_date balcony of None \<Rightarrow> True | Some d \<Rightarrow> d \<le> now ?e"
    by (simp add: balcony_def)
  have en: "case tt_sale_end_date balcony of None \<Rightarrow> True | Some d \<Rightarrow> now ?e \<le> d"
    by (simp add: balcony_def)
  have mx: "tt_max_per_order balcony = 2" "tt_name balcony = ''Balcony''"
    "tt_quantity balcony = 10"
    by (simp_all add: balcony_def)
  have ev3: "event_purchasable ?e ?r3 sample_store" by code_simp
  have len3: "length (fetched_types ?r3 sample_store) = length (ticketOrders ?r3)" by code_simp
  have l3: "ticketOrders ?r3 = ?pre @ \<lparr>ticketTypeId = ''b'', quantity = 3\<rparr> # []"
    by (simp add: request_for_def)
  have pre3: "orders_pass ?e ?r3 sample_store ?pre" by code_simp
  have f3: "find_type (fetched_types ?r3 sample_store)
              (ticketTypeId \<lparr>ticketTypeId = ''b'', quantity = 3\<rparr>) = Some (balcony, 0)"
    by code_simp
  from per_order_limit_boundary[OF ev3 len3 l3 pre3 f3 act st en] mx
  have a: "purchase ?e ?r3 sample_store = (Inl (LimitExceeded 2 ''Balcony''), sample_store)"
    by simp
  have ev2: "event_purchasable ?e ?r2 sample_store" by code_simp
  have len2: "length (fetched_types ?r2 sample_store) = length (ticketOrders ?r2)" by code_simp
  have l2: "ticketOrders ?r2 = ?pre @ \<lparr>ticketTypeId = ''b'', quantity = 2\<rparr> # []"
    by (simp add: request_for_def)
  have pre2: "orders_pass ?e ?r2 sample_store ?pre" by code_simp
  have post2: "orders_pass ?e ?r2 sample_store []" by code_simp
  have f2: "find_type (fetched_types ?r2 sample_store)
              (ticketTypeId \<lparr>ticketTypeId = ''b'', quantity = 2\<rparr>) = Some (balcony, 0)"
    by code_simp
  from per_order_limit_boundary[OF ev2 len2 l2 pre2 f2 act st en] mx post2
  have "(\<exists>resp s'. purchase ?e ?r2 sample_store = (Inr resp, s')) \<or>
        purchase ?e ?r2 sample_store = (Inl ConstraintViolation, sample_store) \<or>
        purchase ?e ?r2 sample_store = (Inl CommitFailure, sample_store)"
    by simp
  moreover have "\<not> isl (fst (purchase ?e ?r2 sample_store))" by code_simp
  ultimately have "\<exists>resp s'. purchase ?e ?r2 sample_store = (Inr resp, s')" by auto
  with a mx show ?thesis by blast
qed

text \<open>
  Against claim C9 as the specification states it: a request of
  \<^verbatim>\<open>max_per_order + 1\<close> tickets of a switched-off ticket type is rejected with "is not
  active", and one for a ticket type whose sale has ended with "Sales for ... have ended".
  A request of exactly \<^verbatim>\<open>max_per_order\<close> that passes every check still fails when
  the store rejects the second ticket for its code.
\<close>

theorem over_limit_reported_as_other_error:
  "tt_max_per_order backstage = 2 \<and>
   fst (purchase (sample_env CHR ''a'' 0) (request_for [(''k'', 3)]) sample_store)
     = Inl (NotActive ''Backstage'') \<and>
   tt_max_per_order early_bird = 5 \<and>
   fst (purchase (sample_env CHR ''a'' 0) (request_for [(''y'', 6)]) sample_store)
     = Inl (SaleEnded ''Early'') \<and>
   tt_max_per_order balcony = 2 \<and>
   orders_pass (sample_env CHR ''a'' 35) (request_for [(''b'', 2)])
     (sample_store\<lparr>tickets := [stored_ticket]\<rparr>) (ticketOrders (request_for [(''b'', 2)])) \<and>
   fst (purchase (sample_env CHR ''a'' 35) (request_for [(''b'', 2)])
          (sample_store\<lparr>tickets := [stored_ticket]\<rparr>))
     = Inl ConstraintViolation"
  by code_simp

end
